theory Spec2Isabelle
  imports Main "HOL-Library.AList"
begin

section \<open>db4sphinx: the DocBook converter and the assembly bookkeeping\<close>

text \<open>
  A shallow embedding of \<^verbatim>\<open>DocbookConverter\<close> (dbparser.py) and of
  \<^verbatim>\<open>DocbookAssemblyInfo\<close> (ext.py).

  Conventions of the embedding.
  \<^item> Python strings are HOL strings; the text of a document is restricted to
    characters below 256.
  \<^item> A Python exception is a value \<open>Inl e\<close>; nothing in the converter catches
    exceptions, so a raise ends the conversion.
  \<^item> \<^verbatim>\<open>parent += node\<close> is modelled by returning the list of nodes a call appends
    to its \<open>parent\<close>, in order; the converter never reads a parent's children.
  \<^item> Every docutils node the converter constructs gets the next allocation number,
    which plays the role of the object's identity: two positions of the output tree
    hold the same Python object exactly when they hold the same number.
  \<^item> Messages sent to \<^verbatim>\<open>document.reporter\<close> are collected in the field
    \<open>reports\<close>; the message texts are kept as structured values, source lines are
    left out.
  \<^item> The calls \<^verbatim>\<open>document.set_id\<close>, \<^verbatim>\<open>note_autofootnote\<close> and
    \<^verbatim>\<open>note_autofootnote_ref\<close> go to tables of the docutils document and are
    not part of the embedding.
  \<^item> The code uses \<^verbatim>\<open>basestring\<close> and plain string literals, and is read as the
    Python 2 program it is.
\<close>

subsection \<open>Exceptions\<close>

datatype error = TypeError | IndexError | KeyError | AttributeError | ValueError

definition bnd :: "error + 'a \<Rightarrow> ('a \<Rightarrow> error + 'b) \<Rightarrow> error + 'b" where
  "bnd m f = (case m of Inl e \<Rightarrow> Inl e | Inr x \<Rightarrow> f x)"

subsection \<open>Strings\<close>

text \<open>\<^verbatim>\<open>isspace\<close> on one character, for code points below 256. The characters 28 to
  31, 133 and 160 are whitespace for a unicode string only; a text that holds 133 or 160
  is a unicode string, and 11, 12 and 28 to 31 cannot occur in an XML 1.0 document.\<close>

definition isspace :: "char \<Rightarrow> bool" where
  "isspace c = (of_char c \<in> {9, 10, 11, 12, 13, 28, 29, 30, 31, 32, 133, 160 :: nat})"

definition lstrip :: "string \<Rightarrow> string" where
  "lstrip s = dropWhile isspace s"

definition rstrip :: "string \<Rightarrow> string" where
  "rstrip s = rev (dropWhile isspace (rev s))"

definition strip :: "string \<Rightarrow> string" where
  "strip s = lstrip (rstrip s)"

text \<open>\<^verbatim>\<open>s.startswith(p)\<close>, which is also \<^verbatim>\<open>s.find(p) == 0\<close>.\<close>

fun startswith :: "string \<Rightarrow> string \<Rightarrow> bool" where
  "startswith s [] = True"
| "startswith [] (p # ps) = False"
| "startswith (c # cs) (p # ps) = (c = p \<and> startswith cs ps)"

text \<open>\<^verbatim>\<open>p in s\<close> for two strings: \<open>p\<close> occurs in \<open>s\<close>.\<close>

fun str_contains :: "string \<Rightarrow> string \<Rightarrow> bool" where
  "str_contains [] p = (p = [])"
| "str_contains (c # cs) p = (startswith (c # cs) p \<or> str_contains cs p)"

text \<open>\<^verbatim>\<open>s.split(sep)\<close> for a separator of one character.\<close>

fun split_on :: "char \<Rightarrow> string \<Rightarrow> string list" where
  "split_on sep [] = [[]]"
| "split_on sep (c # cs) =
     (if c = sep then [] # split_on sep cs
      else (case split_on sep cs of [] \<Rightarrow> [[c]] | w # ws \<Rightarrow> (c # w) # ws))"

text \<open>\<^verbatim>\<open>s.lower()\<close> on the ASCII letters; the result is only ever compared with
  \<^verbatim>\<open>"preferred"\<close>.\<close>

definition lower_char :: "char \<Rightarrow> char" where
  "lower_char c = (let n = (of_char c :: nat) in if 65 \<le> n \<and> n \<le> 90 then char_of (n + 32) else c)"

definition lower :: "string \<Rightarrow> string" where
  "lower s = map lower_char s"

text \<open>The two functions that are installed as text transforms:
  \<^verbatim>\<open>lambda s: s[1:].lstrip()\<close> and \<^verbatim>\<open>lambda x: re.sub(' +', ' ', x)\<close>.\<close>

datatype mangle = StripBullet | CollapseSpaces

fun collapse_spaces :: "string \<Rightarrow> string" where
  "collapse_spaces [] = []"
| "collapse_spaces [c] = [c]"
| "collapse_spaces (c # d # cs) =
     (if c = CHR '' '' \<and> d = CHR '' '' then collapse_spaces (d # cs)
      else c # collapse_spaces (d # cs))"

fun apply_mangle :: "mangle \<Rightarrow> string \<Rightarrow> string" where
  "apply_mangle StripBullet s = lstrip (drop 1 s)"
| "apply_mangle CollapseSpaces s = collapse_spaces s"

subsection \<open>The source tree (lxml)\<close>

text \<open>
  An element has a tag, attributes, leading text, children and a tail; comments and
  processing instructions have a text and a tail, and a function object as their tag.
\<close>

datatype xml =
    XElem string "(string \<times> string) list" "string option" "xml list" "string option"
  | XComment string "string option"
  | XPI string "string option"

datatype tagv = TagStr string | TagComment | TagPI

fun xtag :: "xml \<Rightarrow> tagv" where
  "xtag (XElem t a tx cs ta) = TagStr t"
| "xtag (XComment tx ta) = TagComment"
| "xtag (XPI tx ta) = TagPI"

fun xtext :: "xml \<Rightarrow> string option" where
  "xtext (XElem t a tx cs ta) = tx"
| "xtext (XComment tx ta) = Some tx"
| "xtext (XPI tx ta) = Some tx"

fun xtail :: "xml \<Rightarrow> string option" where
  "xtail (XElem t a tx cs ta) = ta"
| "xtail (XComment tx ta) = ta"
| "xtail (XPI tx ta) = ta"

fun getchildren :: "xml \<Rightarrow> xml list" where
  "getchildren (XElem t a tx cs ta) = cs"
| "getchildren (XComment tx ta) = []"
| "getchildren (XPI tx ta) = []"

fun attrib :: "xml \<Rightarrow> (string \<times> string) list" where
  "attrib (XElem t a tx cs ta) = a"
| "attrib (XComment tx ta) = []"
| "attrib (XPI tx ta) = []"

text \<open>\<^verbatim>\<open>el.get(key)\<close>\<close>

definition xget :: "xml \<Rightarrow> string \<Rightarrow> string option" where
  "xget el k = map_of (attrib el) k"

text \<open>\<^verbatim>\<open>el.findall(tag)\<close> and \<^verbatim>\<open>el.find(tag)\<close> for a path that is one tag name.\<close>

definition findall :: "xml \<Rightarrow> string \<Rightarrow> xml list" where
  "findall el t = filter (\<lambda>c. xtag c = TagStr t) (getchildren el)"

definition find_el :: "xml \<Rightarrow> string \<Rightarrow> xml option" where
  "find_el el t = (case findall el t of [] \<Rightarrow> None | c # cs \<Rightarrow> Some c)"

text \<open>\<^verbatim>\<open>str(el.tag)\<close>; for a comment this is the printed form of lxml's
  \<^verbatim>\<open>Comment\<close> function.\<close>

fun str_tag :: "tagv \<Rightarrow> string" where
  "str_tag (TagStr t) = t"
| "str_tag TagComment = ''<built-in function Comment>''"
| "str_tag TagPI = ''<built-in function ProcessingInstruction>''"

fun xsize :: "xml \<Rightarrow> nat" where
  "xsize (XElem t a tx cs ta) = Suc (sum_list (map xsize cs))"
| "xsize (XComment tx ta) = 0"
| "xsize (XPI tx ta) = 0"

subsection \<open>The output tree (docutils)\<close>

datatype klass =
    K_section | K_title | K_rubric | K_block_quote | K_epigraph | K_sidebar
  | K_paragraph | K_note | K_caution | K_important | K_tip | K_warning
  | K_literal_block | K_definition_list | K_definition_list_item | K_term
  | K_definition | K_bullet_list | K_enumerated_list | K_list_item
  | K_strong | K_emphasis | K_literal | K_inline | K_compound
  | K_subscript | K_superscript | K_footnote_reference | K_footnote
  | K_reference | K_comment | K_math_block

text \<open>Attribute values: \<^verbatim>\<open>None\<close>, a string, or a list of values.\<close>

datatype aval = VNone | VStr string | VList "aval list"

text \<open>An element node carries its allocation number, class, attributes (of which only
  \<^verbatim>\<open>ids\<close> is present from the start) and children; a text node its allocation
  number and its string.\<close>

datatype onode =
    Elem nat klass "(string \<times> aval) list" "onode list"
  | Text nat string

text \<open>\<^verbatim>\<open>node[k] = v\<close> and \<^verbatim>\<open>node += items\<close>\<close>

fun set_attr :: "string \<Rightarrow> aval \<Rightarrow> onode \<Rightarrow> onode" where
  "set_attr k v (Elem n c a ch) = Elem n c (AList.update k v a) ch"
| "set_attr k v (Text n s) = Text n s"

fun add_children :: "onode \<Rightarrow> onode list \<Rightarrow> onode" where
  "add_children (Elem n c a ch) items = Elem n c a (ch @ items)"
| "add_children (Text n s) items = Text n s"

fun get_attr :: "onode \<Rightarrow> string \<Rightarrow> aval option" where
  "get_attr (Elem n c a ch) k = map_of a k"
| "get_attr (Text n s) k = None"

text \<open>Python truthiness of a value.\<close>

fun truthy :: "aval \<Rightarrow> bool" where
  "truthy VNone = False"
| "truthy (VStr s) = (s \<noteq> [])"
| "truthy (VList l) = (l \<noteq> [])"

text \<open>\<^verbatim>\<open>nodes.Text(v)\<close> of a value that may be \<^verbatim>\<open>None\<close>.\<close>

fun str_of_opt :: "string option \<Rightarrow> string" where
  "str_of_opt None = ''None''"
| "str_of_opt (Some s) = s"

fun val_of_opt :: "string option \<Rightarrow> aval" where
  "val_of_opt None = VNone"
| "val_of_opt (Some s) = VStr s"

subsection \<open>The converter's state\<close>

datatype title_handler = SectionTitle | Rubric

datatype severity = Info | Warning

datatype msg =
    IgnoringPI
  | UnknownNamespace string
  | UnknownTag tagv
  | Skipped tagv tagv
  | ChildrenSkipped
  | NoPrimary

record converter =
  docbook5 :: bool
  not_handled_ns :: "string set"
  not_handled_tags :: "tagv set"
  save :: "onode list"
  stack :: "string list"
  anchors :: "string option list"
  title_handler :: "title_handler option"
  listitem_mangle_fn :: "mangle option"
  text_mangle_fn :: "mangle option"
  ordered_list_depth :: int
  current_level :: int
  reports :: "(severity \<times> msg) list"
  next_node :: nat

text \<open>\<^verbatim>\<open>DocbookConverter.__init__\<close>\<close>

definition init :: "bool \<Rightarrow> converter" where
  "init ns = \<lparr> docbook5 = ns, not_handled_ns = {}, not_handled_tags = {}, save = [],
     stack = [], anchors = [], title_handler = None, listitem_mangle_fn = None,
     text_mangle_fn = None, ordered_list_depth = 0, current_level = 0,
     reports = [], next_node = 0 \<rparr>"

definition ns_db :: "converter \<Rightarrow> string" where
  "ns_db st = (if docbook5 st then ''{http://docbook.org/ns/docbook}'' else [])"

definition id_attrib :: "converter \<Rightarrow> string" where
  "id_attrib st = (if docbook5 st then ''{http://www.w3.org/XML/1998/namespace}id'' else ''id'')"

text \<open>The class attribute \<^verbatim>\<open>_NSMAP\<close> of \<^verbatim>\<open>DocbookConverter\<close>\<close>

definition NSMAP :: "(string \<times> string) list" where
  "NSMAP = []"

type_synonym out = "error + (onode list \<times> converter)"
type_synonym cvt = "xml \<Rightarrow> converter \<Rightarrow> out"

definition info :: "converter \<Rightarrow> msg \<Rightarrow> converter" where
  "info st m = st\<lparr>reports := reports st @ [(Info, m)]\<rparr>"

definition warning :: "converter \<Rightarrow> msg \<Rightarrow> converter" where
  "warning st m = st\<lparr>reports := reports st @ [(Warning, m)]\<rparr>"


subsection \<open>Primitives of the converter\<close>

text \<open>\<^verbatim>\<open>supports_only(el, tags)\<close>: \<open>tags\<close> is a tuple of tag names, or, where the
  source writes \<^verbatim>\<open>(self._ns + "x")\<close> without a comma, one string. Against a string,
  \<^verbatim>\<open>i.tag not in tags\<close> is a substring test, and raises TypeError for the tag of a
  comment or processing instruction.\<close>

datatype tagspec = TagsStr string | TagsTuple "string list"

fun tag_in :: "tagv \<Rightarrow> tagspec \<Rightarrow> error + bool" where
  "tag_in (TagStr t) (TagsTuple ts) = Inr (t \<in> set ts)"
| "tag_in TagComment (TagsTuple ts) = Inr False"
| "tag_in TagPI (TagsTuple ts) = Inr False"
| "tag_in (TagStr t) (TagsStr s) = Inr (str_contains s t)"
| "tag_in TagComment (TagsStr s) = Inl TypeError"
| "tag_in TagPI (TagsStr s) = Inl TypeError"

fun supports_only_loop :: "xml \<Rightarrow> tagspec \<Rightarrow> xml list \<Rightarrow> converter \<Rightarrow> error + converter" where
  "supports_only_loop el tags [] st = Inr st"
| "supports_only_loop el tags (i # rest) st =
     (case tag_in (xtag i) tags of
        Inl e \<Rightarrow> Inl e
      | Inr b \<Rightarrow> supports_only_loop el tags rest
                 (if b then st else warning st (Skipped (xtag el) (xtag i))))"

definition supports_only :: "xml \<Rightarrow> tagspec \<Rightarrow> converter \<Rightarrow> error + converter" where
  "supports_only el tags st = supports_only_loop el tags (getchildren el) st"

definition has_only_text :: "xml \<Rightarrow> converter \<Rightarrow> converter" where
  "has_only_text el st = (if getchildren el \<noteq> [] then warning st ChildrenSkipped else st)"

text \<open>\<^verbatim>\<open>self.text(string)\<close>: the one-shot transform is applied and cleared.\<close>

definition text_node :: "string \<Rightarrow> converter \<Rightarrow> onode \<times> converter" where
  "text_node s st =
     (Text (next_node st) (case text_mangle_fn st of None \<Rightarrow> s | Some f \<Rightarrow> apply_mangle f s),
      st\<lparr>text_mangle_fn := None, next_node := Suc (next_node st)\<rparr>)"

text \<open>\<^verbatim>\<open>nodes.Text(string)\<close>, without the transform.\<close>

definition new_text :: "string \<Rightarrow> converter \<Rightarrow> onode \<times> converter" where
  "new_text s st = (Text (next_node st) s, st\<lparr>next_node := Suc (next_node st)\<rparr>)"

text \<open>\<^verbatim>\<open>nodes.comment(s, s)\<close>: a comment element holding one text node.\<close>

definition new_comment :: "string \<Rightarrow> converter \<Rightarrow> onode \<times> converter" where
  "new_comment s st =
     (if s = [] then (Elem (next_node st) K_comment [(''ids'', VList [])] [],
                      st\<lparr>next_node := Suc (next_node st)\<rparr>)
      else (Elem (next_node st) K_comment [(''ids'', VList [])] [Text (Suc (next_node st)) s],
            st\<lparr>next_node := Suc (Suc (next_node st))\<rparr>))"

text \<open>\<^verbatim>\<open>create_node\<close>: \<open>xml_id\<close> is \<^verbatim>\<open>None\<close>, a string or (from \<^verbatim>\<open>e_indexterm\<close>)
  a list; \<open>ids\<close> is \<^verbatim>\<open>None\<close> or a list. The pending anchors are appended to the
  node's ids as one list.\<close>

definition create_node :: "klass \<Rightarrow> aval \<Rightarrow> aval list option \<Rightarrow> converter \<Rightarrow> onode \<times> converter" where
  "create_node k xml_id ids st =
     (let i1 = (if truthy xml_id then [xml_id] else []);
          i2 = (case ids of None \<Rightarrow> i1 | Some l \<Rightarrow> if l \<noteq> [] then l else i1);
          i3 = (if anchors st \<noteq> [] then i2 @ [VList (map val_of_opt (anchors st))] else i2)
      in (Elem (next_node st) k [(''ids'', VList i3)] [],
          st\<lparr>anchors := [], next_node := Suc (next_node st)\<rparr>))"

text \<open>\<^verbatim>\<open>node(parent, klass, default_klass, xml_id, ids)\<close>: \<open>None\<close> stands for the
  parent itself, which is returned when there is neither a class nor an id.\<close>

definition node_db :: "klass option \<Rightarrow> klass \<Rightarrow> aval \<Rightarrow> aval list option \<Rightarrow> converter
    \<Rightarrow> onode option \<times> converter" where
  "node_db k dflt xml_id ids st =
     (if xml_id = VNone \<and> k = None then (None, st)
      else (let (n, st1) = create_node (case k of None \<Rightarrow> dflt | Some c \<Rightarrow> c) xml_id ids st
            in (Some n, st1)))"

text \<open>\<^verbatim>\<open>el.get(self._id_attrib) or None\<close>\<close>

definition xml_id_of :: "xml \<Rightarrow> converter \<Rightarrow> aval" where
  "xml_id_of el st =
     (case xget el (id_attrib st) of None \<Rightarrow> VNone | Some s \<Rightarrow> if s = [] then VNone else VStr s)"

definition create :: "xml \<Rightarrow> klass option \<Rightarrow> klass \<Rightarrow> converter \<Rightarrow> onode option \<times> converter" where
  "create el k dflt st = node_db k dflt (xml_id_of el st) None st"

text \<open>What the parent receives once \<open>items\<close> have been added to the node returned by
  \<open>node_db\<close>: the node with its items, or the items themselves when the node is the
  parent.\<close>

definition attach :: "onode option \<Rightarrow> onode list \<Rightarrow> onode list" where
  "attach w items = (case w of None \<Rightarrow> items | Some n \<Rightarrow> [add_children n items])"

text \<open>\<^verbatim>\<open>if pending is not None and len(pending): parent += self.text(pending)\<close>\<close>

definition emit :: "string option \<Rightarrow> converter \<Rightarrow> onode list \<times> converter" where
  "emit pending st =
     (case pending of
        None \<Rightarrow> ([], st)
      | Some p \<Rightarrow> if p \<noteq> [] then (let (t, st1) = text_node p st in ([t], st1)) else ([], st))"

text \<open>The loop of \<^verbatim>\<open>concat_into\<close>; \<open>cv\<close> is \<^verbatim>\<open>self._conv\<close>.\<close>

fun concat_loop :: "cvt \<Rightarrow> xml list \<Rightarrow> string option \<Rightarrow> converter
    \<Rightarrow> error + (onode list \<times> string option \<times> converter)" where
  "concat_loop cv [] pending st = Inr ([], pending, st)"
| "concat_loop cv (i # rest) pending st =
     (let (pre, st1) = emit pending st in
      case cv i st1 of
        Inl e \<Rightarrow> Inl e
      | Inr (out, st2) \<Rightarrow>
          (case concat_loop cv rest (xtail i) st2 of
             Inl e \<Rightarrow> Inl e
           | Inr (others, pending', st3) \<Rightarrow> Inr (pre @ out @ others, pending', st3)))"

definition concat_into :: "cvt \<Rightarrow> xml \<Rightarrow> bool \<Rightarrow> converter \<Rightarrow> out" where
  "concat_into cv el need_space st =
     bnd (concat_loop cv (getchildren el)
            (if need_space then xtext el else map_option lstrip (xtext el)) st)
       (\<lambda>(out, pending, st1).
          let (fin, st2) = emit (if need_space then pending else map_option rstrip pending) st1
          in Inr (out @ fin, st2))"

text \<open>\<^verbatim>\<open>concat\<close> returns the node (or the parent), here together with the items that went
  into it, so that a caller can still set attributes of the node.\<close>

definition concat_db :: "cvt \<Rightarrow> xml \<Rightarrow> klass option \<Rightarrow> klass \<Rightarrow> bool \<Rightarrow> converter
    \<Rightarrow> error + (onode option \<times> onode list \<times> converter)" where
  "concat_db cv el k dflt need_space st =
     (let (w, st1) = create el k dflt st in
      bnd (concat_into cv el need_space st1) (\<lambda>(items, st2). Inr (w, items, st2)))"

definition concat_out :: "cvt \<Rightarrow> xml \<Rightarrow> klass option \<Rightarrow> bool \<Rightarrow> converter \<Rightarrow> out" where
  "concat_out cv el k need_space st =
     bnd (concat_db cv el k K_inline need_space st) (\<lambda>(w, items, st1). Inr (attach w items, st1))"

text \<open>\<^verbatim>\<open>block\<close>: the node, its items, and the footnotes flushed after it.\<close>

definition block :: "cvt \<Rightarrow> xml \<Rightarrow> klass option \<Rightarrow> converter
    \<Rightarrow> error + (onode option \<times> onode list \<times> onode list \<times> converter)" where
  "block cv el k st =
     bnd (concat_db cv el k K_compound False st)
       (\<lambda>(w, items, st1). Inr (w, items, save st1, st1\<lparr>save := []\<rparr>))"

definition block_out :: "cvt \<Rightarrow> xml \<Rightarrow> klass option \<Rightarrow> converter \<Rightarrow> out" where
  "block_out cv el k st =
     bnd (block cv el k st) (\<lambda>(w, items, flushed, st1). Inr (attach w items @ flushed, st1))"

definition inline_text :: "string \<Rightarrow> string option \<Rightarrow> aval \<Rightarrow> aval list option \<Rightarrow> converter
    \<Rightarrow> onode list \<times> converter" where
  "inline_text s inline_class xml_id ids st =
     (let (w, st1) = node_db (Some K_inline) K_inline xml_id ids st;
          w1 = (case inline_class of None \<Rightarrow> w
                | Some c \<Rightarrow> map_option (set_attr ''classes'' (VList [VStr c])) w);
          (t, st2) = text_node s st1
      in (attach w1 [t], st2))"

definition GENERIC_DOCROLES :: "(string \<times> klass) list" where
  "GENERIC_DOCROLES = [(''dfn'', K_emphasis), (''kbd'', K_literal)]"

definition inline :: "cvt \<Rightarrow> xml \<Rightarrow> string \<Rightarrow> bool \<Rightarrow> converter \<Rightarrow> out" where
  "inline cv el inline_class need_space st =
     (case map_of GENERIC_DOCROLES inline_class of
        Some k \<Rightarrow> concat_out cv el (Some k) need_space st
      | None \<Rightarrow>
          bnd (concat_db cv el (Some K_inline) K_inline need_space st)
            (\<lambda>(w, items, st1).
               Inr (attach (map_option (set_attr ''classes'' (VList [VStr inline_class])) w) items, st1)))"

text \<open>\<^verbatim>\<open>no_markup_text\<close>: the list \<open>ids\<close> is extended in place by the characters of
  each id (\<^verbatim>\<open>ids += xml_id\<close> with a string), so it is returned with the text;
  \<^verbatim>\<open>el.text[-1]\<close> raises IndexError on an empty text.\<close>

fun no_markup_text :: "string \<Rightarrow> xml \<Rightarrow> aval list \<Rightarrow> bool \<Rightarrow> error + (string \<times> aval list \<times> bool)"
  and no_markup_loop :: "string \<Rightarrow> xml list \<Rightarrow> string \<Rightarrow> aval list \<Rightarrow> bool
    \<Rightarrow> error + (string \<times> aval list \<times> bool)" where
  "no_markup_text idk (XElem t a tx cs ta) ids need_space =
     (let ids1 = (case map_of a idk of None \<Rightarrow> ids | Some x \<Rightarrow> ids @ map (\<lambda>c. VStr [c]) x) in
      case tx of
        None \<Rightarrow> no_markup_loop idk cs [] ids1 need_space
      | Some s \<Rightarrow> if s = [] then Inl IndexError
                  else no_markup_loop idk cs s ids1 (\<not> isspace (last s)))"
| "no_markup_text idk (XComment tx ta) ids need_space =
     (if tx = [] then Inl IndexError else Inr (tx, ids, \<not> isspace (last tx)))"
| "no_markup_text idk (XPI tx ta) ids need_space =
     (if tx = [] then Inl IndexError else Inr (tx, ids, \<not> isspace (last tx)))"
| "no_markup_loop idk [] text ids need_space = Inr (text, ids, need_space)"
| "no_markup_loop idk (i # rest) text ids need_space =
     (case no_markup_text idk i ids need_space of
        Inl e \<Rightarrow> Inl e
      | Inr (child_text, ids1, ns1) \<Rightarrow>
          (case xtail i of
             None \<Rightarrow> no_markup_loop idk rest (text @ child_text) ids1 ns1
           | Some tail \<Rightarrow>
               (let tail1 = (if ns1 then tail else lstrip tail) in
                if tail1 \<noteq> [] then
                  no_markup_loop idk rest (text @ child_text @ tail1) ids1 (\<not> isspace (last tail1))
                else no_markup_loop idk rest (text @ child_text) ids1 ns1)))"

definition no_markup :: "xml \<Rightarrow> klass \<Rightarrow> converter \<Rightarrow> out" where
  "no_markup el k st =
     bnd (no_markup_text (id_attrib st) el [] False)
       (\<lambda>(s, ids, sp).
          let (w, st1) = node_db (Some k) K_inline VNone (Some ids) st;
              (t, st2) = text_node s st1
          in Inr (attach w [t], st2))"


subsection \<open>The element handlers\<close>

text \<open>Each handler takes \<^verbatim>\<open>self._conv\<close> as \<open>cv\<close> where it converts children, and
  returns what it appends to its parent.\<close>

definition nop :: "xml \<Rightarrow> converter \<Rightarrow> out" where
  "nop el st = Inr ([], st)"

definition e_anchor :: "xml \<Rightarrow> converter \<Rightarrow> out" where
  "e_anchor el st = Inr ([], st\<lparr>anchors := anchors st @ [xget el (id_attrib st)]\<rparr>)"

text \<open>\<^verbatim>\<open>_section\<close>; the level is assigned after the children have been converted.\<close>

definition section_db :: "cvt \<Rightarrow> xml \<Rightarrow> int \<Rightarrow> converter \<Rightarrow> out" where
  "section_db cv el level st =
     bnd (block_out cv el (Some K_section) (st\<lparr>title_handler := Some SectionTitle\<rparr>))
       (\<lambda>(out, st1). Inr (out, st1\<lparr>title_handler := title_handler st, current_level := level\<rparr>))"

definition e_chapter :: "cvt \<Rightarrow> xml \<Rightarrow> converter \<Rightarrow> out" where
  "e_chapter cv el st = section_db cv el 0 st"

definition e_sect1 :: "cvt \<Rightarrow> xml \<Rightarrow> converter \<Rightarrow> out" where
  "e_sect1 cv el st = section_db cv el 1 st"

definition e_sect2 :: "cvt \<Rightarrow> xml \<Rightarrow> converter \<Rightarrow> out" where
  "e_sect2 cv el st = section_db cv el 2 st"

definition e_sect3 :: "cvt \<Rightarrow> xml \<Rightarrow> converter \<Rightarrow> out" where
  "e_sect3 cv el st = section_db cv el 3 st"

definition e_section :: "cvt \<Rightarrow> xml \<Rightarrow> converter \<Rightarrow> out" where
  "e_section cv el st = section_db cv el (current_level st + 1) st"

text \<open>The method \<^verbatim>\<open>def e_topic\<close> of the class body. The class body later rebinds the
  name (\<^verbatim>\<open>e_topic = e_chapter\<close>), so this is not the handler of the tag; see
  \<open>handlers\<close>.\<close>

definition e_topic_def :: "cvt \<Rightarrow> xml \<Rightarrow> converter \<Rightarrow> out" where
  "e_topic_def cv el st = section_db cv el (current_level st) st"

text \<open>The two title handlers: \<^verbatim>\<open>section_title_handler\<close> and \<^verbatim>\<open>rubric\<close>.\<close>

definition rubric :: "cvt \<Rightarrow> xml \<Rightarrow> converter \<Rightarrow> out" where
  "rubric cv el st = block_out cv el (Some K_rubric) st"

fun call_title_handler :: "title_handler \<Rightarrow> cvt \<Rightarrow> xml \<Rightarrow> converter \<Rightarrow> out" where
  "call_title_handler SectionTitle cv el st = block_out cv el (Some K_title) st"
| "call_title_handler Rubric cv el st = rubric cv el st"

definition e_title :: "cvt \<Rightarrow> xml \<Rightarrow> converter \<Rightarrow> out" where
  "e_title cv el st =
     (case title_handler st of None \<Rightarrow> Inr ([], st) | Some h \<Rightarrow> call_title_handler h cv el st)"

text \<open>The pattern \<^verbatim>\<open>save = self._title_handler; self._title_handler = self.rubric; ...;
  self._title_handler = save\<close> around a call.\<close>

definition with_rubric :: "(converter \<Rightarrow> out) \<Rightarrow> converter \<Rightarrow> out" where
  "with_rubric f st =
     bnd (f (st\<lparr>title_handler := Some Rubric\<rparr>))
       (\<lambda>(out, st1). Inr (out, st1\<lparr>title_handler := title_handler st\<rparr>))"

definition e_blockquote :: "cvt \<Rightarrow> xml \<Rightarrow> converter \<Rightarrow> out" where
  "e_blockquote cv el st = block_out cv el (Some K_block_quote) st"

definition e_epigraph :: "cvt \<Rightarrow> xml \<Rightarrow> converter \<Rightarrow> out" where
  "e_epigraph cv el st = block_out cv el (Some K_epigraph) st"

definition e_sidebar :: "cvt \<Rightarrow> xml \<Rightarrow> converter \<Rightarrow> out" where
  "e_sidebar cv el st = with_rubric (block_out cv el (Some K_sidebar)) st"

definition e_para :: "cvt \<Rightarrow> xml \<Rightarrow> converter \<Rightarrow> out" where
  "e_para cv el st = block_out cv el (Some K_paragraph) st"

definition e_formalpara :: "cvt \<Rightarrow> xml \<Rightarrow> converter \<Rightarrow> out" where
  "e_formalpara cv el st = with_rubric (e_para cv el) st"

definition e_note :: "cvt \<Rightarrow> xml \<Rightarrow> converter \<Rightarrow> out" where
  "e_note cv el st = block_out cv el (Some K_note) st"

definition e_caution :: "cvt \<Rightarrow> xml \<Rightarrow> converter \<Rightarrow> out" where
  "e_caution cv el st = block_out cv el (Some K_caution) st"

definition e_important :: "cvt \<Rightarrow> xml \<Rightarrow> converter \<Rightarrow> out" where
  "e_important cv el st = block_out cv el (Some K_important) st"

definition e_tip :: "cvt \<Rightarrow> xml \<Rightarrow> converter \<Rightarrow> out" where
  "e_tip cv el st = block_out cv el (Some K_tip) st"

definition e_warning :: "cvt \<Rightarrow> xml \<Rightarrow> converter \<Rightarrow> out" where
  "e_warning cv el st = block_out cv el (Some K_warning) st"

text \<open>Handlers bound to \<^verbatim>\<open>concat\<close> and \<^verbatim>\<open>block\<close> themselves
  (\<^verbatim>\<open>e_informalexample = concat\<close>, \<^verbatim>\<open>e_refpurpose = block\<close>, ...): called with the two
  arguments \<open>el\<close> and \<open>parent\<close>, all others at their defaults.\<close>

definition e_concat :: "cvt \<Rightarrow> xml \<Rightarrow> converter \<Rightarrow> out" where
  "e_concat cv el st = concat_out cv el None True st"

definition e_block :: "cvt \<Rightarrow> xml \<Rightarrow> converter \<Rightarrow> out" where
  "e_block cv el st = block_out cv el None st"

definition e_literallayout :: "cvt \<Rightarrow> xml \<Rightarrow> converter \<Rightarrow> out" where
  "e_literallayout cv el st = concat_out cv el (Some K_literal_block) True st"

definition e_glosslist :: "cvt \<Rightarrow> xml \<Rightarrow> converter \<Rightarrow> out" where
  "e_glosslist cv el st =
     bnd (supports_only el (TagsStr (ns_db st @ ''glossentry'')) st)
       (\<lambda>st1. block_out cv el (Some K_definition_list) st1)"

definition e_glossentry :: "cvt \<Rightarrow> xml \<Rightarrow> converter \<Rightarrow> out" where
  "e_glossentry cv el st =
     bnd (supports_only el (TagsTuple [ns_db st @ ''glossterm'', ns_db st @ ''glossdef'']) st)
       (\<lambda>st1. block_out cv el (Some K_definition_list_item) st1)"

definition e_glossterm :: "cvt \<Rightarrow> xml \<Rightarrow> converter \<Rightarrow> out" where
  "e_glossterm cv el st = block_out cv el (Some K_term) st"

definition e_glossdef :: "cvt \<Rightarrow> xml \<Rightarrow> converter \<Rightarrow> out" where
  "e_glossdef cv el st = block_out cv el (Some K_definition) st"

text \<open>\<^verbatim>\<open>el.find(ns + "listitem[1]/" + ns + "para[1]")\<close>: the first \<^verbatim>\<open>para\<close> child of
  the first \<^verbatim>\<open>listitem\<close> child.\<close>

definition first_item_para :: "xml \<Rightarrow> converter \<Rightarrow> xml option" where
  "first_item_para el st =
     (case find_el el (ns_db st @ ''listitem'') of
        None \<Rightarrow> None
      | Some li \<Rightarrow> find_el li (ns_db st @ ''para''))"

text \<open>\<^verbatim>\<open>item is not None and item.text[1] == ' '\<close>, giving \<^verbatim>\<open>item.text[0]\<close> when it
  holds. The subscript raises TypeError on \<^verbatim>\<open>None\<close> and IndexError on a text of
  fewer than two characters.\<close>

definition baked_bullet :: "xml option \<Rightarrow> error + char option" where
  "baked_bullet item =
     (case item of
        None \<Rightarrow> Inr None
      | Some p \<Rightarrow>
          (case xtext p of
             None \<Rightarrow> Inl TypeError
           | Some t \<Rightarrow> if length t < 2 then Inl IndexError
                       else if t ! 1 = CHR '' '' then Inr (Some (t ! 0)) else Inr None))"

definition e_itemizedlist :: "cvt \<Rightarrow> xml \<Rightarrow> converter \<Rightarrow> out" where
  "e_itemizedlist cv el st =
     bnd (supports_only el (TagsStr (ns_db st @ ''listitem'')) st) (\<lambda>st1.
     bnd (baked_bullet (first_item_para el st1)) (\<lambda>b.
       let st2 = (case b of None \<Rightarrow> st1 | Some c \<Rightarrow> st1\<lparr>listitem_mangle_fn := Some StripBullet\<rparr>);
           bullet = (case b of None \<Rightarrow> ''bullet'' | Some c \<Rightarrow> [c])
       in bnd (block cv el (Some K_bullet_list) st2) (\<lambda>(w, items, flushed, st3).
            Inr (attach (map_option (set_attr ''bullet'' (VStr bullet)) w) items @ flushed,
                 st3\<lparr>listitem_mangle_fn := None\<rparr>))))"

definition e_orderedlist :: "cvt \<Rightarrow> xml \<Rightarrow> converter \<Rightarrow> out" where
  "e_orderedlist cv el st =
     bnd (supports_only el (TagsStr (ns_db st @ ''listitem'')) st) (\<lambda>st1.
     bnd (block cv el (Some K_enumerated_list)
            (st1\<lparr>ordered_list_depth := ordered_list_depth st1 + 1\<rparr>))
       (\<lambda>(w, items, flushed, st2).
          let enumtype = (if ordered_list_depth st2 = 1 then ''arabic'' else ''loweralpha'');
              w1 = map_option (set_attr ''suffix'' (VStr ''.'') \<circ> set_attr ''prefix'' (VStr [])
                     \<circ> set_attr ''enumtype'' (VStr enumtype)) w
          in Inr (attach w1 items @ flushed,
                  st2\<lparr>ordered_list_depth := ordered_list_depth st2 - 1\<rparr>)))"

definition e_listitem :: "cvt \<Rightarrow> xml \<Rightarrow> converter \<Rightarrow> out" where
  "e_listitem cv el st =
     bnd (block_out cv el (Some K_list_item)
            (st\<lparr>text_mangle_fn := listitem_mangle_fn st, listitem_mangle_fn := None\<rparr>))
       (\<lambda>(out, st1). Inr (out, st1\<lparr>listitem_mangle_fn := listitem_mangle_fn st\<rparr>))"

definition e_variablelist :: "cvt \<Rightarrow> xml \<Rightarrow> converter \<Rightarrow> out" where
  "e_variablelist cv el st =
     bnd (supports_only el (TagsStr (ns_db st @ ''varlistentry'')) st)
       (\<lambda>st1. block_out cv el (Some K_definition_list) st1)"

fun blocks :: "cvt \<Rightarrow> xml list \<Rightarrow> klass \<Rightarrow> converter \<Rightarrow> out" where
  "blocks cv [] k st = Inr ([], st)"
| "blocks cv (t # ts) k st =
     (case block_out cv t (Some k) st of
        Inl e \<Rightarrow> Inl e
      | Inr (out, st1) \<Rightarrow>
          (case blocks cv ts k st1 of
             Inl e \<Rightarrow> Inl e
           | Inr (others, st2) \<Rightarrow> Inr (out @ others, st2)))"

definition e_varlistentry :: "cvt \<Rightarrow> xml \<Rightarrow> converter \<Rightarrow> out" where
  "e_varlistentry cv el st =
     bnd (supports_only el (TagsTuple [ns_db st @ ''term'', ns_db st @ ''listitem'']) st) (\<lambda>st1.
       let (w, st2) = create el (Some K_definition_list_item) K_inline st1 in
       bnd (blocks cv (findall el (ns_db st @ ''term'')) K_term st2) (\<lambda>(terms, st3).
       bnd (case find_el el (ns_db st @ ''listitem'') of
              None \<Rightarrow> Inr ([], st3)
            | Some item \<Rightarrow> block_out cv item (Some K_definition) st3) (\<lambda>(defn, st4).
         Inr (attach w (terms @ defn), st4))))"

definition e_emphasis :: "cvt \<Rightarrow> xml \<Rightarrow> converter \<Rightarrow> out" where
  "e_emphasis cv el st =
     (if (case xget el ''Role'' of None \<Rightarrow> [] | Some r \<Rightarrow> r) = ''strong''
      then concat_out cv el (Some K_strong) True st
      else concat_out cv el (Some K_emphasis) True st)"

definition e_phrase :: "cvt \<Rightarrow> xml \<Rightarrow> converter \<Rightarrow> out" where
  "e_phrase cv el st = concat_out cv el (Some K_emphasis) True st"

definition e_literal :: "cvt \<Rightarrow> xml \<Rightarrow> converter \<Rightarrow> out" where
  "e_literal cv el st = concat_out cv el (Some K_literal) True st"

definition e_keycap :: "cvt \<Rightarrow> xml \<Rightarrow> converter \<Rightarrow> out" where
  "e_keycap cv el st = inline cv el ''kbd'' True (has_only_text el st)"

definition e_application :: "cvt \<Rightarrow> xml \<Rightarrow> converter \<Rightarrow> out" where
  "e_application cv el st = inline cv el ''program'' True (has_only_text el st)"

definition e_filename :: "cvt \<Rightarrow> xml \<Rightarrow> converter \<Rightarrow> out" where
  "e_filename cv el st = inline cv el ''file'' True st"

definition e_command :: "cvt \<Rightarrow> xml \<Rightarrow> converter \<Rightarrow> out" where
  "e_command cv el st = inline cv el ''command'' True st"

definition e_option :: "cvt \<Rightarrow> xml \<Rightarrow> converter \<Rightarrow> out" where
  "e_option cv el st = inline cv el ''option'' True st"

definition e_envar :: "cvt \<Rightarrow> xml \<Rightarrow> converter \<Rightarrow> out" where
  "e_envar cv el st = inline cv el ''env'' True st"

text \<open>\<^verbatim>\<open>e_cmdsynopsis\<close> calls \<^verbatim>\<open>self.no_markup(el, nodes.inline, parent)\<close> with
  the last two arguments exchanged; once the text has been collected, \<^verbatim>\<open>node\<close> calls
  the parent node as if it were a class, which raises TypeError.\<close>

definition e_cmdsynopsis :: "xml \<Rightarrow> converter \<Rightarrow> out" where
  "e_cmdsynopsis el st =
     (let (c, st1) = new_comment ''cmdsynopsis'' st in
      bnd (no_markup_text (id_attrib st1) el [] False) (\<lambda>r. Inl TypeError))"

definition e_firstterm :: "cvt \<Rightarrow> xml \<Rightarrow> converter \<Rightarrow> out" where
  "e_firstterm cv el st = inline cv el ''dfn'' True (has_only_text el st)"

definition e_userinput :: "cvt \<Rightarrow> xml \<Rightarrow> converter \<Rightarrow> out" where
  "e_userinput cv el st = inline cv el ''kbd'' True st"

definition e_subscript :: "cvt \<Rightarrow> xml \<Rightarrow> converter \<Rightarrow> out" where
  "e_subscript cv el st = concat_out cv el (Some K_subscript) True st"

definition e_superscript :: "cvt \<Rightarrow> xml \<Rightarrow> converter \<Rightarrow> out" where
  "e_superscript cv el st = concat_out cv el (Some K_superscript) True st"

text \<open>The two literals of \<^verbatim>\<open>e_quote\<close>, written with a backslash-u escape for
  U+2018 and U+2019; in a plain Python 2 string they are six characters each.\<close>

definition lsquo :: string where
  "lsquo = char_of (92 :: nat) # ''u2018''"

definition rsquo :: string where
  "rsquo = char_of (92 :: nat) # ''u2019''"

definition e_quote :: "cvt \<Rightarrow> xml \<Rightarrow> converter \<Rightarrow> out" where
  "e_quote cv el st =
     (let (l, st1) = new_text lsquo st in
      bnd (concat_out cv el None True st1) (\<lambda>(out, st2).
        let (r, st3) = new_text rsquo st2 in Inr (l # out @ [r], st3)))"

text \<open>\<^verbatim>\<open>e_footnote\<close>: the reference node is appended to the parent; the footnote node is
  made with \<^verbatim>\<open>self.create\<close>, which appends it to the parent as well, and is then
  added to \<^verbatim>\<open>self._save\<close>.\<close>

definition e_footnote :: "cvt \<Rightarrow> xml \<Rightarrow> converter \<Rightarrow> out" where
  "e_footnote cv el st =
     bnd (supports_only el (TagsTuple [ns_db st @ ''para'']) st) (\<lambda>st1.
       let (r, st2) = node_db (Some K_footnote_reference) K_inline VNone None st1;
           (h, st3) = new_text ''#'' st2;
           (w, st4) = create el (Some K_footnote) K_inline st3
       in bnd (concat_into cv el False st4) (\<lambda>(items, st5).
            let footnote = attach w items
            in Inr (attach r [h] @ footnote, st5\<lparr>save := save st5 @ footnote\<rparr>)))"

definition e_ulink :: "cvt \<Rightarrow> xml \<Rightarrow> converter \<Rightarrow> out" where
  "e_ulink cv el st =
     bnd (concat_db cv el (Some K_reference) K_inline True st) (\<lambda>(w, items, st1).
       Inr (attach (map_option (set_attr ''refuri'' (val_of_opt (xget el ''url''))) w) items, st1))"

definition xlink_href :: string where
  "xlink_href = ''{http://www.w3.org/1999/xlink}href''"

definition e_xref :: "xml \<Rightarrow> converter \<Rightarrow> out" where
  "e_xref el st =
     (let (w, st1) = create el (Some K_reference) K_inline st in
      case xget el ''linkend'' of
        Some v \<Rightarrow>
          (let (t, st2) = new_text v st1
           in Inr (attach (map_option (set_attr ''refid'' (VStr v)) w) [t], st2))
      | None \<Rightarrow>
          (let u = xget el xlink_href; (t, st2) = new_text (str_of_opt u) st1
           in Inr (attach (map_option (set_attr ''refuri'' (val_of_opt u)) w) [t], st2)))"

definition e_link :: "cvt \<Rightarrow> xml \<Rightarrow> converter \<Rightarrow> out" where
  "e_link cv el st =
     bnd (concat_db cv el (Some K_reference) K_inline True st) (\<lambda>(w, items, st1).
       case xget el ''linkend'' of
         Some v \<Rightarrow> Inr (attach (map_option (set_attr ''refid'' (VStr v)) w) items, st1)
       | None \<Rightarrow> Inr (attach (map_option (set_attr ''refuri'' (val_of_opt (xget el xlink_href))) w)
                         items, st1))"


text \<open>\<^verbatim>\<open>e_indexterm\<close>. The texts and ids are collected first: \<^verbatim>\<open>no_markup_text\<close>
  does not touch the converter, and the one list object \<open>ids\<close> it extends is the object
  stored in every node made with a non-empty \<open>ids\<close>, so such a node shows the list as
  it is at the end. \<^verbatim>\<open>inline_text\<close> receives the list as its fourth positional
  argument, which is \<open>xml_id\<close>. The variable \<^verbatim>\<open>got\<close> is never set.\<close>

definition see_text :: "string \<Rightarrow> xml \<Rightarrow> string \<Rightarrow> aval list \<Rightarrow> error + (string option \<times> aval list)" where
  "see_text idk el t ids =
     (case find_el el t of
        None \<Rightarrow> Inr (None, ids)
      | Some e \<Rightarrow> bnd (no_markup_text idk e ids False) (\<lambda>(s, ids1, sp). Inr (Some s, ids1)))"

definition see_node :: "string \<Rightarrow> string \<Rightarrow> string option \<Rightarrow> aval list \<Rightarrow> aval list \<Rightarrow> converter
    \<Rightarrow> onode list \<times> converter" where
  "see_node term pri see ids_then ids_end st =
     (case see of
        None \<Rightarrow> ([], st)
      | Some s \<Rightarrow>
          inline_text (''<'' @ term @ '': '' @ pri @ ''; '' @ s @ ''>'') (Some ''index'')
            (VList (if ids_then = [] then [] else ids_end)) None st)"

definition e_indexterm :: "xml \<Rightarrow> converter \<Rightarrow> out" where
  "e_indexterm el st =
     bnd (supports_only el (TagsTuple [ns_db st @ ''primary'', ns_db st @ ''secondary'',
            ns_db st @ ''see'', ns_db st @ ''seealso'']) st) (\<lambda>st1.
       case findall el (ns_db st @ ''primary'') of
         [] \<Rightarrow> Inr ([], warning st1 NoPrimary)
       | pri_el # others \<Rightarrow>
           bnd (no_markup_text (id_attrib st) pri_el [] False) (\<lambda>(pri, ids0, sp).
           bnd (see_text (id_attrib st) el (ns_db st @ ''see'') ids0) (\<lambda>(see, ids1).
           bnd (see_text (id_attrib st) el (ns_db st @ ''seealso'') ids1) (\<lambda>(seealso, ids2).
           bnd (see_text (id_attrib st) el (ns_db st @ ''secondary'') ids2) (\<lambda>(sec, ids3).
             let (o1, st2) = see_node ''see'' pri see ids1 ids3 st1;
                 (o2, st3) = see_node ''seealso'' pri seealso ids2 ids3 st2;
                 pri1 = (case sec of None \<Rightarrow> pri
                         | Some s \<Rightarrow> ''<single: '' @ pri @ ''; '' @ s @ ''>'');
                 pri2 = (if lower (case xget el ''significance'' of None \<Rightarrow> [] | Some v \<Rightarrow> v)
                            = ''preferred''
                         then ''! '' @ pri1 else pri1);
                 (o3, st4) = inline_text pri2 (Some ''index'') (VList ids3) None st3
             in Inr (o1 @ o2 @ o3, st4))))))"

definition e_inlineequation :: "cvt \<Rightarrow> xml \<Rightarrow> converter \<Rightarrow> out" where
  "e_inlineequation cv el st =
     bnd (supports_only el (TagsStr (ns_db st @ ''mathphrase'')) st)
       (\<lambda>st1. concat_out cv el None True st1)"

definition e_equation :: "cvt \<Rightarrow> xml \<Rightarrow> converter \<Rightarrow> out" where
  "e_equation cv el st =
     bnd (supports_only el (TagsTuple [ns_db st @ ''title'', ns_db st @ ''mathphrase'']) st)
       (\<lambda>st1. with_rubric (concat_out cv el None True) st1)"

text \<open>\<^verbatim>\<open>self._stack[-2]\<close>\<close>

definition stack_parent :: "converter \<Rightarrow> error + string" where
  "stack_parent st =
     (if length (stack st) < 2 then Inl IndexError else Inr (stack st ! (length (stack st) - 2)))"

definition e_mathphrase :: "cvt \<Rightarrow> xml \<Rightarrow> converter \<Rightarrow> out" where
  "e_mathphrase cv el st =
     bnd (stack_parent st) (\<lambda>p.
       if p = ''inlineequation'' then inline cv el ''math'' False st
       else block_out cv el (Some K_math_block) st)"

definition e_refentry :: "cvt \<Rightarrow> xml \<Rightarrow> converter \<Rightarrow> out" where
  "e_refentry cv el st = block_out cv el (Some K_section) st"

definition e_refsect1 :: "cvt \<Rightarrow> xml \<Rightarrow> converter \<Rightarrow> out" where
  "e_refsect1 cv el st = with_rubric (block_out cv el None) st"

definition e_refname :: "xml \<Rightarrow> converter \<Rightarrow> out" where
  "e_refname el st = no_markup el K_title st"

fun paramdefs_loop :: "cvt \<Rightarrow> xml list \<Rightarrow> string \<Rightarrow> converter \<Rightarrow> out" where
  "paramdefs_loop cv [] sep st = Inr ([], st)"
| "paramdefs_loop cv (p # ps) sep st =
     (let (t, st1) = text_node sep st in
      case cv p st1 of
        Inl e \<Rightarrow> Inl e
      | Inr (out, st2) \<Rightarrow>
          (case paramdefs_loop cv ps '', '' st2 of
             Inl e \<Rightarrow> Inl e
           | Inr (others, st3) \<Rightarrow> Inr (t # out @ others, st3)))"

text \<open>\<^verbatim>\<open>e_funcprototype\<close>: without a \<^verbatim>\<open>funcdef\<close> child \<^verbatim>\<open>_conv\<close> is called on
  \<^verbatim>\<open>None\<close> and raises AttributeError at \<^verbatim>\<open>el.tag\<close>.\<close>

definition e_funcprototype :: "cvt \<Rightarrow> xml \<Rightarrow> converter \<Rightarrow> out" where
  "e_funcprototype cv el st =
     bnd (supports_only el (TagsTuple [ns_db st @ ''funcdef'', ns_db st @ ''paramdef'']) st) (\<lambda>st1.
       case find_el el (ns_db st @ ''funcdef'') of
         None \<Rightarrow> Inl AttributeError
       | Some funcdef \<Rightarrow>
           bnd (cv funcdef st1) (\<lambda>(o1, st2).
           bnd (paramdefs_loop cv (findall el (ns_db st @ ''paramdef'')) ''('' st2) (\<lambda>(o2, st3).
             let (t, st4) = text_node '')'' st3 in Inr (o1 @ o2 @ [t], st4))))"

definition e_funcparams :: "cvt \<Rightarrow> xml \<Rightarrow> converter \<Rightarrow> out" where
  "e_funcparams cv el st =
     (let (l, st1) = text_node ''('' st in
      bnd (concat_out cv el None True (st1\<lparr>text_mangle_fn := Some CollapseSpaces\<rparr>)) (\<lambda>(out, st2).
        let (r, st3) = text_node '')'' st2 in Inr (l # out @ [r], st3)))"

definition e_parameter :: "cvt \<Rightarrow> xml \<Rightarrow> converter \<Rightarrow> out" where
  "e_parameter cv el st =
     bnd (stack_parent st) (\<lambda>p.
       if p = ''paramdef''
       then concat_out cv el (Some K_emphasis) True (st\<lparr>text_mangle_fn := Some CollapseSpaces\<rparr>)
       else concat_out cv el (Some K_literal) True (st\<lparr>text_mangle_fn := Some CollapseSpaces\<rparr>))"

subsection \<open>Dispatch\<close>

text \<open>The attributes of a \<^verbatim>\<open>DocbookConverter\<close> whose names start with \<^verbatim>\<open>e_\<close>, with
  the function each name is bound to at the end of the class body. \<^verbatim>\<open>e_userinput\<close>,
  \<^verbatim>\<open>e_info\<close> and \<^verbatim>\<open>e_topic\<close> are bound twice there; the last binding counts.\<close>

definition handlers :: "(string \<times> (cvt \<Rightarrow> xml \<Rightarrow> converter \<Rightarrow> out)) list" where
  "handlers =
    [(''e_anchor'', \<lambda>cv. e_anchor),
     (''e_chapter'', e_chapter), (''e_sect1'', e_sect1), (''e_sect2'', e_sect2),
     (''e_sect3'', e_sect3), (''e_section'', e_section),
     (''e_preface'', e_chapter), (''e_appendix'', e_chapter),
     (''e_title'', e_title),
     (''e_book'', e_chapter), (''e_article'', e_chapter), (''e_topic'', e_chapter),
     (''e_blockquote'', e_blockquote), (''e_epigraph'', e_epigraph), (''e_sidebar'', e_sidebar),
     (''e_para'', e_para), (''e_formalpara'', e_formalpara), (''e_simpara'', e_para),
     (''e_note'', e_note), (''e_caution'', e_caution), (''e_important'', e_important),
     (''e_tip'', e_tip), (''e_warning'', e_warning),
     (''e_informalexample'', e_concat),
     (''e_literallayout'', e_literallayout), (''e_screen'', e_literallayout),
     (''e_programlisting'', e_literallayout),
     (''e_glosslist'', e_glosslist), (''e_glossentry'', e_glossentry),
     (''e_glossterm'', e_glossterm), (''e_glossdef'', e_glossdef),
     (''e_itemizedlist'', e_itemizedlist), (''e_orderedlist'', e_orderedlist),
     (''e_listitem'', e_listitem),
     (''e_variablelist'', e_variablelist), (''e_varlistentry'', e_varlistentry),
     (''e_emphasis'', e_emphasis), (''e_phrase'', e_phrase),
     (''e_citetitle'', e_emphasis), (''e_replaceable'', e_emphasis),
     (''e_literal'', e_literal), (''e_code'', e_literal),
     (''e_keycap'', e_keycap), (''e_application'', e_application),
     (''e_systemitem'', e_literal), (''e_prompt'', e_literal),
     (''e_filename'', e_filename), (''e_command'', e_command), (''e_option'', e_option),
     (''e_envar'', e_envar),
     (''e_cmdsynopsis'', \<lambda>cv. e_cmdsynopsis),
     (''e_firstterm'', e_firstterm), (''e_userinput'', e_userinput),
     (''e_subscript'', e_subscript), (''e_superscript'', e_superscript),
     (''e_quote'', e_quote), (''e_footnote'', e_footnote),
     (''e_ulink'', e_ulink), (''e_xref'', \<lambda>cv. e_xref), (''e_link'', e_link),
     (''e_index'', \<lambda>cv. nop), (''e_indexterm'', \<lambda>cv. e_indexterm),
     (''e_inlineequation'', e_inlineequation), (''e_equation'', e_equation),
     (''e_mathphrase'', e_mathphrase),
     (''e_set'', e_concat), (''e_volume'', e_concat), (''e_simplesect'', e_concat),
     (''e_refentry'', e_refentry), (''e_refsect1'', e_refsect1),
     (''e_info'', \<lambda>cv. nop), (''e_refentryinfo'', \<lambda>cv. nop), (''e_refmeta'', \<lambda>cv. nop),
     (''e_refnamediv'', e_refsect1), (''e_refsynopsisdiv'', e_refsect1),
     (''e_refname'', \<lambda>cv. e_refname), (''e_refpurpose'', e_block),
     (''e_funcprototype'', e_funcprototype), (''e_funcparams'', e_funcparams),
     (''e_parameter'', e_parameter),
     (''e_funcsynopsis'', e_block), (''e_funcdef'', e_concat), (''e_paramdef'', e_concat),
     (''e_manvolnum'', e_funcparams),
     (''e_function'', e_literal), (''e_constant'', e_literal), (''e_varname'', e_literal),
     (''e_structname'', e_literal), (''e_structfield'', e_literal), (''e_type'', e_literal)]"

text \<open>The first part of \<^verbatim>\<open>_conv\<close>: the tag that goes on the stack, the name of the
  method to look for, and the state after the namespace report. An unknown namespace is
  reported when it is not in \<^verbatim>\<open>_not_handled_ns\<close>; the code adds the tag to
  \<^verbatim>\<open>_not_handled_tags\<close> and nothing to \<^verbatim>\<open>_not_handled_ns\<close>.\<close>

definition method_name :: "xml \<Rightarrow> converter \<Rightarrow> error + (string \<times> string option \<times> converter)" where
  "method_name el st =
     (let tag = str_tag (xtag el) in
      if startswith tag (ns_db st) then
        (let tag1 = drop (length (ns_db st)) tag in Inr (tag1, Some (''e_'' @ tag1), st))
      else if startswith tag ''{'' then
        (case split_on CHR ''}'' (drop 1 tag) of
           [ns, rawTag] \<Rightarrow>
             (case map_of NSMAP ns of
                None \<Rightarrow>
                  Inr (tag, None,
                       (if ns \<notin> not_handled_ns st then warning st (UnknownNamespace ns) else st)
                         \<lparr>not_handled_tags := insert (xtag el) (not_handled_tags st)\<rparr>)
              | Some prefix \<Rightarrow> Inr (tag, Some (''e_'' @ prefix @ ''_'' @ rawTag), st))
         | _ \<Rightarrow> Inl ValueError)
      else Inr (tag, None, st))"

text \<open>The fallback of \<^verbatim>\<open>_conv\<close> for an element without a handler.\<close>

definition report_unknown_tag :: "xml \<Rightarrow> converter \<Rightarrow> converter" where
  "report_unknown_tag el st =
     (if xtag el \<notin> not_handled_tags st
      then (warning st (UnknownTag (xtag el)))
             \<lparr>not_handled_tags := insert (xtag el) (not_handled_tags st)\<rparr>
      else st)"

definition passthrough :: "cvt \<Rightarrow> xml \<Rightarrow> converter \<Rightarrow> out" where
  "passthrough cv el st = concat_out cv el None True (report_unknown_tag el st)"

text \<open>\<^verbatim>\<open>hasattr(self, method_name)\<close> and \<^verbatim>\<open>getattr(self, method_name)\<close>\<close>

definition lookup_handler :: "string option \<Rightarrow> (cvt \<Rightarrow> xml \<Rightarrow> converter \<Rightarrow> out) option" where
  "lookup_handler m = (case m of None \<Rightarrow> None | Some name \<Rightarrow> map_of handlers name)"

text \<open>The body of \<^verbatim>\<open>_conv\<close>, with the recursive calls going to \<open>cv\<close>.\<close>

definition conv_step :: "cvt \<Rightarrow> xml \<Rightarrow> converter \<Rightarrow> out" where
  "conv_step cv el st =
     (case el of
        XPI tx ta \<Rightarrow> Inr ([], info st IgnoringPI)
      | _ \<Rightarrow>
        if xtag el = TagComment \<and> strip (str_of_opt (xtext el)) \<noteq> [] then
          (let (c, st1) = new_comment (str_of_opt (xtext el)) st in Inr ([c], st1))
        else
          bnd (method_name el st) (\<lambda>(tag, m, st1).
          bnd ((case lookup_handler m of
                  Some h \<Rightarrow> h cv el
                | None \<Rightarrow> passthrough cv el) (st1\<lparr>stack := stack st1 @ [tag]\<rparr>))
            (\<lambda>(out, st2). Inr (out, st2\<lparr>stack := butlast (stack st2)\<rparr>))))"


subsection \<open>The recursion of \<open>_conv\<close>\<close>

text \<open>A handler calls \<open>cv\<close> only on elements below its own element, so two converters that
  agree below an element give the same result on it.\<close>

definition agree :: "cvt \<Rightarrow> cvt \<Rightarrow> nat \<Rightarrow> bool" where
  "agree cv cv' n = (\<forall>c s. xsize c < n \<longrightarrow> cv c s = cv' c s)"

lemma agree_mono: "agree cv cv' n \<Longrightarrow> m \<le> n \<Longrightarrow> agree cv cv' m"
  by (simp add: agree_def)

lemma agreeD: "agree cv cv' n \<Longrightarrow> xsize c < n \<Longrightarrow> cv c s = cv' c s"
  by (simp add: agree_def)

lemma child_size: "c \<in> set (getchildren el) \<Longrightarrow> xsize c < xsize el"
  by (cases el) (auto simp: less_Suc_eq_le member_le_sum_list)

lemma findall_size: "c \<in> set (findall el t) \<Longrightarrow> xsize c < xsize el"
  by (simp add: findall_def child_size)

lemma find_el_size: "find_el el t = Some c \<Longrightarrow> xsize c < xsize el"
  by (auto simp: find_el_def split: list.splits intro: findall_size [of c el t])

lemma bnd_simps [simp]: "bnd (Inl e) f = Inl e" "bnd (Inr x) f = f x"
  by (simp_all add: bnd_def)

lemma bnd_cong [fundef_cong]:
  "m = m' \<Longrightarrow> (\<And>x. m' = Inr x \<Longrightarrow> f x = f' x) \<Longrightarrow> bnd m f = bnd m' f'"
  by (auto simp: bnd_def split: sum.splits)

lemma concat_loop_agree:
  "\<forall>c\<in>set cs. xsize c < n \<Longrightarrow> agree cv cv' n \<Longrightarrow>
   concat_loop cv cs p st = concat_loop cv' cs p st"
proof (induction cs arbitrary: p st)
  case Nil
  show ?case by simp
next
  case (Cons c cs)
  have head: "cv c s = cv' c s" for s
    using Cons.prems by (simp add: agreeD)
  have rest: "concat_loop cv cs q s = concat_loop cv' cs q s" for q s
    using Cons.IH Cons.prems by simp
  show ?case
    by (simp add: head rest split: prod.splits sum.splits)
qed

lemma concat_into_agree:
  "agree cv cv' (xsize el) \<Longrightarrow> concat_into cv el b st = concat_into cv' el b st"
  using concat_loop_agree [of "getchildren el" "xsize el" cv cv']
  by (simp add: concat_into_def child_size)

lemma concat_db_agree:
  "agree cv cv' (xsize el) \<Longrightarrow> concat_db cv el k d b st = concat_db cv' el k d b st"
  by (simp add: concat_db_def concat_into_agree [of cv cv'] split: prod.splits)

lemma concat_out_agree:
  "agree cv cv' (xsize el) \<Longrightarrow> concat_out cv el k b st = concat_out cv' el k b st"
  by (simp add: concat_out_def concat_db_agree [of cv cv'])

lemma block_agree:
  "agree cv cv' (xsize el) \<Longrightarrow> block cv el k st = block cv' el k st"
  by (simp add: block_def concat_db_agree [of cv cv'])

lemma block_out_agree:
  "agree cv cv' (xsize el) \<Longrightarrow> block_out cv el k st = block_out cv' el k st"
  by (simp add: block_out_def block_agree [of cv cv'])

lemma inline_agree:
  "agree cv cv' (xsize el) \<Longrightarrow> inline cv el c b st = inline cv' el c b st"
  by (simp add: inline_def concat_out_agree [of cv cv'] concat_db_agree [of cv cv']
      split: option.splits)

lemma blocks_agree:
  "\<forall>t\<in>set ts. xsize t < n \<Longrightarrow> agree cv cv' n \<Longrightarrow> blocks cv ts k st = blocks cv' ts k st"
proof (induction ts arbitrary: st)
  case Nil
  show ?case by simp
next
  case (Cons t ts)
  have "agree cv cv' (xsize t)"
    using Cons.prems by (auto intro: agree_mono)
  then have head: "block_out cv t (Some k) s = block_out cv' t (Some k) s" for s
    by (rule block_out_agree)
  have rest: "blocks cv ts k s = blocks cv' ts k s" for s
    using Cons.IH Cons.prems by simp
  show ?case
    by (simp add: head rest split: prod.splits sum.splits)
qed

lemma paramdefs_loop_agree:
  "\<forall>c\<in>set ps. xsize c < n \<Longrightarrow> agree cv cv' n \<Longrightarrow>
   paramdefs_loop cv ps sep st = paramdefs_loop cv' ps sep st"
proof (induction ps arbitrary: sep st)
  case Nil
  show ?case by simp
next
  case (Cons c cs)
  have head: "cv c s = cv' c s" for s
    using Cons.prems by (simp add: agreeD)
  have rest: "paramdefs_loop cv cs q s = paramdefs_loop cv' cs q s" for q s
    using Cons.IH Cons.prems by simp
  show ?case
    by (simp add: head rest split: prod.splits sum.splits)
qed

lemma with_rubric_agree:
  "(\<And>s. f s = g s) \<Longrightarrow> with_rubric f st = with_rubric g st"
  by (simp add: with_rubric_def)

lemma e_title_agree:
  "agree cv cv' (xsize el) \<Longrightarrow> e_title cv el st = e_title cv' el st"
proof -
  assume a: "agree cv cv' (xsize el)"
  have "call_title_handler h cv el st = call_title_handler h cv' el st" for h
    by (cases h) (simp_all add: rubric_def block_out_agree [OF a])
  then show ?thesis
    by (simp add: e_title_def split: option.splits)
qed

lemma e_varlistentry_agree:
  "agree cv cv' (xsize el) \<Longrightarrow> e_varlistentry cv el st = e_varlistentry cv' el st"
proof -
  assume a: "agree cv cv' (xsize el)"
  have b: "blocks cv (findall el t) k s = blocks cv' (findall el t) k s" for t k s
    using blocks_agree [of "findall el t" "xsize el" cv cv'] a by (simp add: findall_size)
  have c: "find_el el t = Some item \<Longrightarrow>
      block_out cv item (Some k) s = block_out cv' item (Some k) s" for t item k s
    using a by (auto intro!: block_out_agree agree_mono [OF a] dest!: find_el_size)
  show ?thesis
    by (auto simp: e_varlistentry_def b c split: prod.splits option.splits intro!: bnd_cong)
qed

lemma e_funcprototype_agree:
  "agree cv cv' (xsize el) \<Longrightarrow> e_funcprototype cv el st = e_funcprototype cv' el st"
proof -
  assume a: "agree cv cv' (xsize el)"
  have b: "paramdefs_loop cv (findall el t) sep s = paramdefs_loop cv' (findall el t) sep s"
    for t sep s
    using paramdefs_loop_agree [of "findall el t" "xsize el" cv cv'] a
    by (simp add: findall_size)
  have c: "find_el el t = Some fd \<Longrightarrow> cv fd s = cv' fd s" for t fd s
    using a by (auto intro: agreeD dest!: find_el_size)
  show ?thesis
    by (auto simp: e_funcprototype_def b c split: option.splits intro!: bnd_cong)
qed

lemmas prim_agree =
  concat_into_agree concat_out_agree concat_db_agree block_agree block_out_agree inline_agree

lemmas handler_defs =
  e_chapter_def e_sect1_def e_sect2_def e_sect3_def e_section_def section_db_def
  e_blockquote_def e_epigraph_def e_sidebar_def e_para_def e_formalpara_def with_rubric_def
  e_note_def e_caution_def e_important_def e_tip_def e_warning_def e_concat_def e_block_def
  e_literallayout_def e_glosslist_def e_glossentry_def e_glossterm_def e_glossdef_def
  e_itemizedlist_def e_orderedlist_def e_listitem_def e_variablelist_def
  e_emphasis_def e_phrase_def e_literal_def e_keycap_def e_application_def
  e_filename_def e_command_def e_option_def e_envar_def e_firstterm_def e_userinput_def
  e_subscript_def e_superscript_def e_quote_def e_footnote_def e_ulink_def e_link_def
  e_inlineequation_def e_equation_def e_mathphrase_def e_refentry_def e_refsect1_def
  e_funcparams_def e_parameter_def

lemma handler_agree:
  assumes a: "agree cv cv' (xsize el)" and h: "(name, h) \<in> set handlers"
  shows "h cv el st = h cv' el st"
  using h unfolding handlers_def
  by (auto simp: handler_defs prim_agree [OF a] e_title_agree [OF a]
      e_varlistentry_agree [OF a] e_funcprototype_agree [OF a] split: prod.splits cong: if_cong)

lemma conv_step_cong [fundef_cong]:
  assumes "el = el'" "st = st'" "\<And>c s. xsize c < xsize el' \<Longrightarrow> cv c s = cv' c s"
  shows "conv_step cv el st = conv_step cv' el' st'"
proof -
  have a: "agree cv cv' (xsize el)"
    using assms by (simp add: agree_def)
  have "lookup_handler m = Some h \<Longrightarrow> h cv el s = h cv' el s" for m h s
    by (auto simp: lookup_handler_def split: option.splits
        dest!: map_of_SomeD intro: handler_agree [OF a])
  moreover have "passthrough cv el s = passthrough cv' el s" for s
    by (simp add: passthrough_def concat_out_agree [OF a])
  ultimately show ?thesis
    using assms(1,2) by (auto simp: conv_step_def split: xml.splits option.splits prod.splits
        intro!: bnd_cong)
qed

text \<open>\<^verbatim>\<open>_conv\<close>. The recursion ends because every recursive call is on an element
  below the current one.\<close>

function conv :: "xml \<Rightarrow> converter \<Rightarrow> out" where
  "conv el st = conv_step conv el st"
  by pat_completeness auto
termination
  by (relation "measure (\<lambda>(el, st). xsize el)") auto

declare conv.simps [simp del]

text \<open>\<^verbatim>\<open>convert_root\<close>\<close>

definition convert_root :: "bool \<Rightarrow> xml \<Rightarrow> out" where
  "convert_root ns el = conv el (init ns)"


text \<open>The nodes a conversion appended, and the messages it reported.\<close>

definition result_nodes :: "out \<Rightarrow> error + onode list" where
  "result_nodes r = (case r of Inl e \<Rightarrow> Inl e | Inr (nodes, st) \<Rightarrow> Inr nodes)"

definition result_reports :: "out \<Rightarrow> error + (severity \<times> msg) list" where
  "result_reports r = (case r of Inl e \<Rightarrow> Inl e | Inr (nodes, st) \<Rightarrow> Inr (reports st))"

definition result_level :: "out \<Rightarrow> error + int" where
  "result_level r = (case r of Inl e \<Rightarrow> Inl e | Inr (nodes, st) \<Rightarrow> Inr (current_level st))"

text \<open>How many positions of a tree hold the node with allocation number \<open>n\<close>.\<close>

fun occurrences :: "nat \<Rightarrow> onode \<Rightarrow> nat" where
  "occurrences n (Elem m k a ch) = (if m = n then 1 else 0) + sum_list (map (occurrences n) ch)"
| "occurrences n (Text m s) = (if m = n then 1 else 0)"

definition result_occurrences :: "nat \<Rightarrow> out \<Rightarrow> error + nat" where
  "result_occurrences n r =
     (case r of Inl e \<Rightarrow> Inl e | Inr (nodes, st) \<Rightarrow> Inr (sum_list (map (occurrences n) nodes)))"

subsection \<open>Structural passthrough, as the specification words it\<close>

text \<open>The specification describes the fallback as converting the text and each child
  in order: the leading text, then every child followed by its tail text, all appended
  to the parent. \<open>passthrough_spec\<close> is that reading; \<open>concat_into\<close> above is the
  code.\<close>

fun convert_each :: "cvt \<Rightarrow> xml list \<Rightarrow> converter \<Rightarrow> out" where
  "convert_each cv [] st = Inr ([], st)"
| "convert_each cv (c # cs) st =
     (case cv c st of
        Inl e \<Rightarrow> Inl e
      | Inr (out, st1) \<Rightarrow>
          (let (tail, st2) = emit (xtail c) st1 in
           case convert_each cv cs st2 of
             Inl e \<Rightarrow> Inl e
           | Inr (others, st3) \<Rightarrow> Inr (out @ tail @ others, st3)))"

definition passthrough_spec :: "cvt \<Rightarrow> string option \<Rightarrow> xml list \<Rightarrow> converter \<Rightarrow> out" where
  "passthrough_spec cv tx cs st =
     (let (lead, st1) = emit tx st in
      case convert_each cv cs st1 of
        Inl e \<Rightarrow> Inl e
      | Inr (others, st2) \<Rightarrow> Inr (lead @ others, st2))"

subsection \<open>The assembly bookkeeping (ext.py)\<close>

text \<open>\<^verbatim>\<open>DocbookAssemblyInfo\<close>: \<open>children\<close> maps a document to its list of
  (description, child) entries, \<open>assemblies\<close> maps a document to its top resource,
  \<open>roots\<close> is a set of documents.\<close>

record assembly_info =
  children :: "string \<rightharpoonup> (string \<times> string) list"
  assemblies :: "string \<rightharpoonup> string"
  roots :: "string set"

definition new_info :: assembly_info where
  "new_info = \<lparr> children = Map.empty, assemblies = Map.empty, roots = {} \<rparr>"

text \<open>\<^verbatim>\<open>add_child\<close>; \<open>children\<close> is a \<^verbatim>\<open>defaultdict(list)\<close>.\<close>

definition add_child :: "assembly_info \<Rightarrow> string \<Rightarrow> string \<Rightarrow> string \<Rightarrow> assembly_info" where
  "add_child ai parent child description =
     ai\<lparr>children := (children ai)
       (parent \<mapsto> (case children ai parent of None \<Rightarrow> [] | Some l \<Rightarrow> l) @ [(description, child)])\<rparr>"

text \<open>The two assignments of \<^verbatim>\<open>include_resource\<close> at depth 1.\<close>

definition register_top :: "assembly_info \<Rightarrow> string \<Rightarrow> string \<Rightarrow> assembly_info" where
  "register_top ai parent_docname docname =
     ai\<lparr>assemblies := (assemblies ai)(parent_docname \<mapsto> docname),
          roots := insert docname (roots ai)\<rparr>"

text \<open>\<^verbatim>\<open>purge\<close>; \<^verbatim>\<open>set.remove\<close> raises KeyError for an element that is not in the
  set.\<close>

definition purge :: "assembly_info \<Rightarrow> string \<Rightarrow> error + assembly_info" where
  "purge ai docname =
     bnd (case assemblies ai docname of
            None \<Rightarrow> Inr ai
          | Some tr \<Rightarrow>
              if tr \<in> roots ai
              then Inr (ai\<lparr>roots := roots ai - {tr},
                             assemblies := (assemblies ai)(docname := None)\<rparr>)
              else Inl KeyError)
       (\<lambda>ai1. Inr (ai1\<lparr>children :=
          (\<lambda>key. map_option (filter (\<lambda>x. snd x \<noteq> docname)) (children ai1 key))\<rparr>))"

text \<open>The entries recorded under a document after an operation that may raise.\<close>

definition result_children :: "error + assembly_info \<Rightarrow> string \<Rightarrow> error + (string \<times> string) list option" where
  "result_children r k = (case r of Inl e \<Rightarrow> Inl e | Inr ai \<Rightarrow> Inr (children ai k))"

text \<open>A converter keeps the ordered-list depth on the elements below a bound.\<close>

definition keeps_depth :: "cvt \<Rightarrow> nat \<Rightarrow> bool" where
  "keeps_depth cv n = (\<forall>c s out s'. xsize c < n \<longrightarrow> cv c s = Inr (out, s') \<longrightarrow>
     ordered_list_depth s' = ordered_list_depth s)"

text \<open>Notions used to state what a conversion produces: a text that is absent or all
  whitespace; the string a pending transform makes of a text; the attributes
  \<open>create_node\<close> gives a new node; and a state that has moved on by \<open>k\<close> allocations
  with an empty footnote buffer.\<close>

definition blank :: "string option \<Rightarrow> bool" where
  "blank x = (case x of None \<Rightarrow> True | Some s \<Rightarrow> list_all isspace s)"

definition advanced :: "converter \<Rightarrow> nat \<Rightarrow> converter \<Rightarrow> bool" where
  "advanced s k s' = (save s' = [] \<and> next_node s' = next_node s + k \<and> docbook5 s' = docbook5 s \<and>
     listitem_mangle_fn s' = listitem_mangle_fn s \<and> stack s' = stack s)"

definition node_attrs :: "aval \<Rightarrow> aval list option \<Rightarrow> converter \<Rightarrow> (string \<times> aval) list" where
  "node_attrs x i s = (case fst (create_node K_inline x i s) of Elem n c a ch \<Rightarrow> a | Text n t \<Rightarrow> [])"

definition mangled :: "mangle option \<Rightarrow> string \<Rightarrow> string" where
  "mangled f s = (case f of None \<Rightarrow> s | Some g \<Rightarrow> apply_mangle g s)"

text \<open>The reports \<open>supports_only\<close> makes against a tuple of tags: one for each child
  whose tag is not in the tuple.\<close>

definition skipped :: "xml \<Rightarrow> string list \<Rightarrow> xml list \<Rightarrow> (severity \<times> msg) list" where
  "skipped el ts cs =
     map (\<lambda>i. (Warning, Skipped (xtag el) (xtag i)))
       (filter (\<lambda>i. tag_in (xtag i) (TagsTuple ts) = Inr False) cs)"

section \<open>Properties\<close>

subsection \<open>Purging a document from the assembly bookkeeping\<close>






subsection \<open>Footnotes\<close>

text \<open>
  C1 says that a paragraph with the footnotes A and B gets a footnote reference at each
  point of use and that the two bodies appear only after the paragraph, as the siblings
  [paragraph][footnote A][footnote B], never inside the referencing block. The code
  appends each footnote body to the paragraph as well (\<^verbatim>\<open>self.create\<close> appends the
  node it makes), and the paragraph inside footnote B flushes the pending footnote A
  into B. For \<^verbatim>\<open><para>x<footnote><para>a</para></footnote><footnote><para>b</para>
  </footnote></para>\<close> the converter produces the paragraph holding both bodies,
  followed by footnote B alone, which holds A.
\<close>

theorem footnote_bodies_nested:
  "result_nodes (convert_root False
     (XElem ''para'' [] (Some ''x'')
        [XElem ''footnote'' [] None [XElem ''para'' [] (Some ''a'') [] None] None,
         XElem ''footnote'' [] None [XElem ''para'' [] (Some ''b'') [] None] None] None))
   = Inr [Elem 0 K_paragraph [(''ids'', VList [])]
            [Text 1 ''x'',
             Elem 2 K_footnote_reference [(''ids'', VList [])] [Text 3 ''#''],
             Elem 4 K_footnote [(''ids'', VList [])]
               [Elem 5 K_paragraph [(''ids'', VList [])] [Text 6 ''a'']],
             Elem 7 K_footnote_reference [(''ids'', VList [])] [Text 8 ''#''],
             Elem 9 K_footnote [(''ids'', VList [])]
               [Elem 10 K_paragraph [(''ids'', VList [])] [Text 11 ''b''],
                Elem 4 K_footnote [(''ids'', VList [])]
                  [Elem 5 K_paragraph [(''ids'', VList [])] [Text 6 ''a'']]]],
          Elem 9 K_footnote [(''ids'', VList [])]
            [Elem 10 K_paragraph [(''ids'', VList [])] [Text 11 ''b''],
             Elem 4 K_footnote [(''ids'', VList [])]
               [Elem 5 K_paragraph [(''ids'', VList [])] [Text 6 ''a'']]]]"
  by code_simp

text \<open>
  C2 says that no output node occurs at two positions of the output tree. For
  \<^verbatim>\<open><para>x<footnote>a</footnote></para>\<close> the footnote node, the fifth node the
  converter allocates, is a child of the paragraph and also the sibling that follows the
  paragraph: the one object is at two positions.
\<close>

theorem footnote_node_at_two_positions:
  "result_nodes (convert_root False
     (XElem ''para'' [] (Some ''x'') [XElem ''footnote'' [] (Some ''a'') [] None] None))
   = Inr [Elem 0 K_paragraph [(''ids'', VList [])]
            [Text 1 ''x'',
             Elem 2 K_footnote_reference [(''ids'', VList [])] [Text 3 ''#''],
             Elem 4 K_footnote [(''ids'', VList [])] [Text 5 ''a'']],
          Elem 4 K_footnote [(''ids'', VList [])] [Text 5 ''a'']] \<and>
   result_occurrences 4 (convert_root False
     (XElem ''para'' [] (Some ''x'') [XElem ''footnote'' [] (Some ''a'') [] None] None))
   = Inr 2"
  by code_simp

subsection \<open>Unknown namespaces\<close>

text \<open>
  C4 says that an unrecognized namespace is reported once per run, however many
  elements use it. The set \<^verbatim>\<open>_not_handled_ns\<close> that \<^verbatim>\<open>_conv\<close> consults is never
  added to, so in a DocBook 5 document every element of an unknown namespace is
  reported: two elements \<^verbatim>\<open>{urn:x}a\<close> give two reports of \<^verbatim>\<open>urn:x\<close>.
\<close>

theorem namespace_reported_per_element:
  "result_reports (convert_root True
     (XElem ''{http://docbook.org/ns/docbook}para'' [] None
        [XElem ''{urn:x}a'' [] None [] None, XElem ''{urn:x}a'' [] None [] None] None))
   = Inr [(Warning, UnknownNamespace ''urn:x''), (Warning, UnknownNamespace ''urn:x'')]"
  by code_simp

subsection \<open>Section levels\<close>

text \<open>
  C9 says that a \<^verbatim>\<open>topic\<close> element leaves the current level unchanged. The method
  \<^verbatim>\<open>e_topic\<close> of the class body does that, but the class body rebinds the name to
  \<^verbatim>\<open>e_chapter\<close>, so the handler of the tag sets level 0: converting a
  \<^verbatim>\<open>topic\<close> at level 2 ends at level 0, where the shadowed method would end at 2.
\<close>

theorem topic_resets_level:
  "result_level (conv (XElem ''topic'' [] None [] None) ((init False)\<lparr>current_level := 2\<rparr>))
     = Inr 0 \<and>
   result_level (e_topic_def conv (XElem ''topic'' [] None [] None)
       ((init False)\<lparr>current_level := 2\<rparr>))
     = Inr 2"
  by code_simp


subsection \<open>Ordered lists\<close>

text \<open>Every conversion that returns leaves \<^verbatim>\<open>_ordered_list_depth\<close> as it found it:
  only \<^verbatim>\<open>e_orderedlist\<close> changes the counter, and it undoes its increment.\<close>

lemma keeps_depthD:
  "keeps_depth cv n \<Longrightarrow> xsize c < n \<Longrightarrow> cv c s = Inr (out, s') \<Longrightarrow>
   ordered_list_depth s' = ordered_list_depth s"
  unfolding keeps_depth_def by blast

lemma keeps_depth_mono: "keeps_depth cv n \<Longrightarrow> m \<le> n \<Longrightarrow> keeps_depth cv m"
  unfolding keeps_depth_def by (meson less_le_trans)

lemma bnd_eq_Inr: "bnd m f = Inr r \<longleftrightarrow> (\<exists>x. m = Inr x \<and> f x = Inr r)"
  by (cases m) simp_all


lemma text_node_depth [simp]: "ordered_list_depth (snd (text_node s st)) = ordered_list_depth st"
  by (simp add: text_node_def)

lemma new_text_depth [simp]: "ordered_list_depth (snd (new_text s st)) = ordered_list_depth st"
  by (simp add: new_text_def)

lemma new_comment_depth [simp]: "ordered_list_depth (snd (new_comment s st)) = ordered_list_depth st"
  by (simp add: new_comment_def)

lemma emit_depth [simp]: "ordered_list_depth (snd (emit p st)) = ordered_list_depth st"
  by (simp add: emit_def split_def Let_def split: option.splits)

lemma node_db_depth [simp]:
  "ordered_list_depth (snd (node_db k d x i st)) = ordered_list_depth st"
  by (simp add: node_db_def create_node_def Let_def split_def)

lemma create_depth [simp]:
  "ordered_list_depth (snd (create el k d st)) = ordered_list_depth st"
  by (simp add: create_def)

lemma inline_text_depth [simp]:
  "ordered_list_depth (snd (inline_text s c x i st)) = ordered_list_depth st"
  by (simp add: inline_text_def Let_def split_def)

lemma see_node_depth [simp]:
  "ordered_list_depth (snd (see_node t p s i j st)) = ordered_list_depth st"
  by (simp add: see_node_def split: option.splits)

lemma warning_depth [simp]: "ordered_list_depth (warning st m) = ordered_list_depth st"
  by (simp add: warning_def)

lemma info_depth [simp]: "ordered_list_depth (info st m) = ordered_list_depth st"
  by (simp add: info_def)

lemma supports_only_loop_depth:
  "supports_only_loop el tags cs st = Inr st' \<Longrightarrow> ordered_list_depth st' = ordered_list_depth st"
  by (induction cs arbitrary: st) (auto split: sum.splits if_splits)

lemma supports_only_depth:
  "supports_only el tags st = Inr st' \<Longrightarrow> ordered_list_depth st' = ordered_list_depth st"
  by (simp add: supports_only_def supports_only_loop_depth)

lemma has_only_text_depth [simp]:
  "ordered_list_depth (has_only_text el st) = ordered_list_depth st"
  by (simp add: has_only_text_def)

lemma report_unknown_tag_depth [simp]:
  "ordered_list_depth (report_unknown_tag el st) = ordered_list_depth st"
  by (simp add: report_unknown_tag_def)

lemma concat_loop_depth:
  "\<forall>c\<in>set cs. xsize c < n \<Longrightarrow> keeps_depth cv n \<Longrightarrow>
   concat_loop cv cs p st = Inr (out, p', st') \<Longrightarrow>
   ordered_list_depth st' = ordered_list_depth st"
proof (induction cs arbitrary: p st out p' st')
  case Nil
  then show ?case by simp
next
  case (Cons c cs)
  let ?st1 = "snd (emit p st)"
  from Cons.prems(3) obtain o2 st2 where c: "cv c ?st1 = Inr (o2, st2)"
    by (auto simp: split_def Let_def split: sum.splits)
  from Cons.prems(3) c obtain o3 where r: "concat_loop cv cs (xtail c) st2 = Inr (o3, p', st')"
    by (auto simp: split_def Let_def split: sum.splits)
  have "ordered_list_depth st2 = ordered_list_depth ?st1"
    using Cons.prems(1,2) c by (auto dest: keeps_depthD)
  moreover have "ordered_list_depth st' = ordered_list_depth st2"
    using Cons.IH [OF _ Cons.prems(2) r] Cons.prems(1) by simp
  ultimately show ?case by simp
qed

lemma concat_into_depth:
  assumes "keeps_depth cv (xsize el)" "concat_into cv el b st = Inr (out, st')"
  shows "ordered_list_depth st' = ordered_list_depth st"
proof -
  from assms(2) obtain o1 p1 st1 where
    l: "concat_loop cv (getchildren el) (if b then xtext el else map_option lstrip (xtext el)) st
          = Inr (o1, p1, st1)"
    and e: "st' = snd (emit (if b then p1 else map_option rstrip p1) st1)"
    by (auto simp: concat_into_def bnd_eq_Inr split_def Let_def)
  have "ordered_list_depth st1 = ordered_list_depth st"
    using concat_loop_depth [OF _ assms(1) l] by (simp add: child_size)
  with e show ?thesis by simp
qed

lemma concat_db_depth:
  assumes "keeps_depth cv (xsize el)" "concat_db cv el k d b st = Inr (w, out, st')"
  shows "ordered_list_depth st' = ordered_list_depth st"
  using assms(2)
  by (auto simp: concat_db_def bnd_eq_Inr split_def Let_def dest!: concat_into_depth [OF assms(1)])

lemma concat_out_depth:
  assumes "keeps_depth cv (xsize el)" "concat_out cv el k b st = Inr (out, st')"
  shows "ordered_list_depth st' = ordered_list_depth st"
  using assms(2)
  by (auto simp: concat_out_def bnd_eq_Inr dest!: concat_db_depth [OF assms(1)])

lemma block_depth:
  assumes "keeps_depth cv (xsize el)" "block cv el k st = Inr (w, out, fl, st')"
  shows "ordered_list_depth st' = ordered_list_depth st"
  using assms(2)
  by (auto simp: block_def bnd_eq_Inr dest!: concat_db_depth [OF assms(1)])

lemma block_out_depth:
  assumes "keeps_depth cv (xsize el)" "block_out cv el k st = Inr (out, st')"
  shows "ordered_list_depth st' = ordered_list_depth st"
  using assms(2)
  by (auto simp: block_out_def bnd_eq_Inr dest!: block_depth [OF assms(1)])

lemma inline_depth:
  assumes "keeps_depth cv (xsize el)" "inline cv el c b st = Inr (out, st')"
  shows "ordered_list_depth st' = ordered_list_depth st"
  using assms(2)
  by (auto simp: inline_def bnd_eq_Inr split: option.splits
      dest!: concat_db_depth [OF assms(1)] concat_out_depth [OF assms(1)])

lemma blocks_depth:
  "\<forall>t\<in>set ts. xsize t < n \<Longrightarrow> keeps_depth cv n \<Longrightarrow> blocks cv ts k st = Inr (out, st') \<Longrightarrow>
   ordered_list_depth st' = ordered_list_depth st"
proof (induction ts arbitrary: st out st')
  case Nil
  then show ?case by simp
next
  case (Cons t ts)
  from Cons.prems(3) obtain o1 st1 where b: "block_out cv t (Some k) st = Inr (o1, st1)"
    by (auto split: sum.splits)
  from Cons.prems(3) b obtain o2 where r: "blocks cv ts k st1 = Inr (o2, st')"
    by (auto split: sum.splits)
  have "keeps_depth cv (xsize t)"
    using Cons.prems(1,2) by (auto intro: keeps_depth_mono)
  then have "ordered_list_depth st1 = ordered_list_depth st"
    using b by (rule block_out_depth)
  moreover have "ordered_list_depth st' = ordered_list_depth st1"
    using Cons.IH [OF _ Cons.prems(2) r] Cons.prems(1) by simp
  ultimately show ?case by simp
qed

lemma paramdefs_loop_depth:
  "\<forall>c\<in>set ps. xsize c < n \<Longrightarrow> keeps_depth cv n \<Longrightarrow>
   paramdefs_loop cv ps sep st = Inr (out, st') \<Longrightarrow>
   ordered_list_depth st' = ordered_list_depth st"
proof (induction ps arbitrary: sep st out st')
  case Nil
  then show ?case by simp
next
  case (Cons c cs)
  let ?st1 = "snd (text_node sep st)"
  from Cons.prems(3) obtain o2 st2 where c: "cv c ?st1 = Inr (o2, st2)"
    by (auto simp: split_def Let_def split: sum.splits)
  from Cons.prems(3) c obtain o3 where r: "paramdefs_loop cv cs '', '' st2 = Inr (o3, st')"
    by (auto simp: split_def Let_def split: sum.splits)
  have "ordered_list_depth st2 = ordered_list_depth ?st1"
    using Cons.prems(1,2) c by (auto dest: keeps_depthD)
  moreover have "ordered_list_depth st' = ordered_list_depth st2"
    using Cons.IH [OF _ Cons.prems(2) r] Cons.prems(1) by simp
  ultimately show ?case by simp
qed

lemma e_title_depth:
  assumes "keeps_depth cv (xsize el)" "e_title cv el st = Inr (out, st')"
  shows "ordered_list_depth st' = ordered_list_depth st"
proof (cases "title_handler st")
  case None
  with assms(2) show ?thesis by (simp add: e_title_def)
next
  case (Some h)
  with assms(2) show ?thesis
    by (cases h) (auto simp: e_title_def rubric_def dest!: block_out_depth [OF assms(1)])
qed


lemmas prim_depth = concat_into_depth concat_db_depth concat_out_depth block_depth
  block_out_depth inline_depth

lemma with_rubric_depth:
  assumes "\<And>s out s'. f s = Inr (out, s') \<Longrightarrow> ordered_list_depth s' = ordered_list_depth s"
    and "with_rubric f st = Inr (out, st')"
  shows "ordered_list_depth st' = ordered_list_depth st"
  using assms(2) by (auto simp: with_rubric_def bnd_eq_Inr dest!: assms(1))

lemma section_db_depth:
  assumes "keeps_depth cv (xsize el)" "section_db cv el l st = Inr (out, st')"
  shows "ordered_list_depth st' = ordered_list_depth st"
  using assms(2) by (auto simp: section_db_def bnd_eq_Inr dest!: block_out_depth [OF assms(1)])

lemma e_chapter_depth:
  assumes a: "keeps_depth cv (xsize el)" and r: "e_chapter cv el st = Inr (out, st')"
  shows "ordered_list_depth st' = ordered_list_depth st"
  using r
  by (auto simp: e_chapter_def bnd_eq_Inr split_def Let_def stack_parent_def with_rubric_def e_para_def
      split: if_splits option.splits
      dest!: prim_depth [OF a] section_db_depth [OF a] supports_only_depth)

lemma e_sect1_depth:
  assumes a: "keeps_depth cv (xsize el)" and r: "e_sect1 cv el st = Inr (out, st')"
  shows "ordered_list_depth st' = ordered_list_depth st"
  using r
  by (auto simp: e_sect1_def bnd_eq_Inr split_def Let_def stack_parent_def with_rubric_def e_para_def
      split: if_splits option.splits
      dest!: prim_depth [OF a] section_db_depth [OF a] supports_only_depth)

lemma e_sect2_depth:
  assumes a: "keeps_depth cv (xsize el)" and r: "e_sect2 cv el st = Inr (out, st')"
  shows "ordered_list_depth st' = ordered_list_depth st"
  using r
  by (auto simp: e_sect2_def bnd_eq_Inr split_def Let_def stack_parent_def with_rubric_def e_para_def
      split: if_splits option.splits
      dest!: prim_depth [OF a] section_db_depth [OF a] supports_only_depth)

lemma e_sect3_depth:
  assumes a: "keeps_depth cv (xsize el)" and r: "e_sect3 cv el st = Inr (out, st')"
  shows "ordered_list_depth st' = ordered_list_depth st"
  using r
  by (auto simp: e_sect3_def bnd_eq_Inr split_def Let_def stack_parent_def with_rubric_def e_para_def
      split: if_splits option.splits
      dest!: prim_depth [OF a] section_db_depth [OF a] supports_only_depth)

lemma e_section_depth:
  assumes a: "keeps_depth cv (xsize el)" and r: "e_section cv el st = Inr (out, st')"
  shows "ordered_list_depth st' = ordered_list_depth st"
  using r
  by (auto simp: e_section_def bnd_eq_Inr split_def Let_def stack_parent_def with_rubric_def e_para_def
      split: if_splits option.splits
      dest!: prim_depth [OF a] section_db_depth [OF a] supports_only_depth)

lemma e_blockquote_depth:
  assumes a: "keeps_depth cv (xsize el)" and r: "e_blockquote cv el st = Inr (out, st')"
  shows "ordered_list_depth st' = ordered_list_depth st"
  using r
  by (auto simp: e_blockquote_def bnd_eq_Inr split_def Let_def stack_parent_def with_rubric_def e_para_def
      split: if_splits option.splits
      dest!: prim_depth [OF a] section_db_depth [OF a] supports_only_depth)

lemma e_epigraph_depth:
  assumes a: "keeps_depth cv (xsize el)" and r: "e_epigraph cv el st = Inr (out, st')"
  shows "ordered_list_depth st' = ordered_list_depth st"
  using r
  by (auto simp: e_epigraph_def bnd_eq_Inr split_def Let_def stack_parent_def with_rubric_def e_para_def
      split: if_splits option.splits
      dest!: prim_depth [OF a] section_db_depth [OF a] supports_only_depth)

lemma e_sidebar_depth:
  assumes a: "keeps_depth cv (xsize el)" and r: "e_sidebar cv el st = Inr (out, st')"
  shows "ordered_list_depth st' = ordered_list_depth st"
  using r
  by (auto simp: e_sidebar_def bnd_eq_Inr split_def Let_def stack_parent_def with_rubric_def e_para_def
      split: if_splits option.splits
      dest!: prim_depth [OF a] section_db_depth [OF a] supports_only_depth)

lemma e_para_depth:
  assumes a: "keeps_depth cv (xsize el)" and r: "e_para cv el st = Inr (out, st')"
  shows "ordered_list_depth st' = ordered_list_depth st"
  using r
  by (auto simp: e_para_def bnd_eq_Inr split_def Let_def stack_parent_def with_rubric_def e_para_def
      split: if_splits option.splits
      dest!: prim_depth [OF a] section_db_depth [OF a] supports_only_depth)

lemma e_formalpara_depth:
  assumes a: "keeps_depth cv (xsize el)" and r: "e_formalpara cv el st = Inr (out, st')"
  shows "ordered_list_depth st' = ordered_list_depth st"
  using r
  by (auto simp: e_formalpara_def bnd_eq_Inr split_def Let_def stack_parent_def with_rubric_def e_para_def
      split: if_splits option.splits
      dest!: prim_depth [OF a] section_db_depth [OF a] supports_only_depth)

lemma e_note_depth:
  assumes a: "keeps_depth cv (xsize el)" and r: "e_note cv el st = Inr (out, st')"
  shows "ordered_list_depth st' = ordered_list_depth st"
  using r
  by (auto simp: e_note_def bnd_eq_Inr split_def Let_def stack_parent_def with_rubric_def e_para_def
      split: if_splits option.splits
      dest!: prim_depth [OF a] section_db_depth [OF a] supports_only_depth)

lemma e_caution_depth:
  assumes a: "keeps_depth cv (xsize el)" and r: "e_caution cv el st = Inr (out, st')"
  shows "ordered_list_depth st' = ordered_list_depth st"
  using r
  by (auto simp: e_caution_def bnd_eq_Inr split_def Let_def stack_parent_def with_rubric_def e_para_def
      split: if_splits option.splits
      dest!: prim_depth [OF a] section_db_depth [OF a] supports_only_depth)

lemma e_important_depth:
  assumes a: "keeps_depth cv (xsize el)" and r: "e_important cv el st = Inr (out, st')"
  shows "ordered_list_depth st' = ordered_list_depth st"
  using r
  by (auto simp: e_important_def bnd_eq_Inr split_def Let_def stack_parent_def with_rubric_def e_para_def
      split: if_splits option.splits
      dest!: prim_depth [OF a] section_db_depth [OF a] supports_only_depth)

lemma e_tip_depth:
  assumes a: "keeps_depth cv (xsize el)" and r: "e_tip cv el st = Inr (out, st')"
  shows "ordered_list_depth st' = ordered_list_depth st"
  using r
  by (auto simp: e_tip_def bnd_eq_Inr split_def Let_def stack_parent_def with_rubric_def e_para_def
      split: if_splits option.splits
      dest!: prim_depth [OF a] section_db_depth [OF a] supports_only_depth)

lemma e_warning_depth:
  assumes a: "keeps_depth cv (xsize el)" and r: "e_warning cv el st = Inr (out, st')"
  shows "ordered_list_depth st' = ordered_list_depth st"
  using r
  by (auto simp: e_warning_def bnd_eq_Inr split_def Let_def stack_parent_def with_rubric_def e_para_def
      split: if_splits option.splits
      dest!: prim_depth [OF a] section_db_depth [OF a] supports_only_depth)

lemma e_concat_depth:
  assumes a: "keeps_depth cv (xsize el)" and r: "e_concat cv el st = Inr (out, st')"
  shows "ordered_list_depth st' = ordered_list_depth st"
  using r
  by (auto simp: e_concat_def bnd_eq_Inr split_def Let_def stack_parent_def with_rubric_def e_para_def
      split: if_splits option.splits
      dest!: prim_depth [OF a] section_db_depth [OF a] supports_only_depth)

lemma e_block_depth:
  assumes a: "keeps_depth cv (xsize el)" and r: "e_block cv el st = Inr (out, st')"
  shows "ordered_list_depth st' = ordered_list_depth st"
  using r
  by (auto simp: e_block_def bnd_eq_Inr split_def Let_def stack_parent_def with_rubric_def e_para_def
      split: if_splits option.splits
      dest!: prim_depth [OF a] section_db_depth [OF a] supports_only_depth)

lemma e_literallayout_depth:
  assumes a: "keeps_depth cv (xsize el)" and r: "e_literallayout cv el st = Inr (out, st')"
  shows "ordered_list_depth st' = ordered_list_depth st"
  using r
  by (auto simp: e_literallayout_def bnd_eq_Inr split_def Let_def stack_parent_def with_rubric_def e_para_def
      split: if_splits option.splits
      dest!: prim_depth [OF a] section_db_depth [OF a] supports_only_depth)

lemma e_glosslist_depth:
  assumes a: "keeps_depth cv (xsize el)" and r: "e_glosslist cv el st = Inr (out, st')"
  shows "ordered_list_depth st' = ordered_list_depth st"
  using r
  by (auto simp: e_glosslist_def bnd_eq_Inr split_def Let_def stack_parent_def with_rubric_def e_para_def
      split: if_splits option.splits
      dest!: prim_depth [OF a] section_db_depth [OF a] supports_only_depth)

lemma e_glossentry_depth:
  assumes a: "keeps_depth cv (xsize el)" and r: "e_glossentry cv el st = Inr (out, st')"
  shows "ordered_list_depth st' = ordered_list_depth st"
  using r
  by (auto simp: e_glossentry_def bnd_eq_Inr split_def Let_def stack_parent_def with_rubric_def e_para_def
      split: if_splits option.splits
      dest!: prim_depth [OF a] section_db_depth [OF a] supports_only_depth)

lemma e_glossterm_depth:
  assumes a: "keeps_depth cv (xsize el)" and r: "e_glossterm cv el st = Inr (out, st')"
  shows "ordered_list_depth st' = ordered_list_depth st"
  using r
  by (auto simp: e_glossterm_def bnd_eq_Inr split_def Let_def stack_parent_def with_rubric_def e_para_def
      split: if_splits option.splits
      dest!: prim_depth [OF a] section_db_depth [OF a] supports_only_depth)

lemma e_glossdef_depth:
  assumes a: "keeps_depth cv (xsize el)" and r: "e_glossdef cv el st = Inr (out, st')"
  shows "ordered_list_depth st' = ordered_list_depth st"
  using r
  by (auto simp: e_glossdef_def bnd_eq_Inr split_def Let_def stack_parent_def with_rubric_def e_para_def
      split: if_splits option.splits
      dest!: prim_depth [OF a] section_db_depth [OF a] supports_only_depth)

lemma e_itemizedlist_depth:
  assumes a: "keeps_depth cv (xsize el)" and r: "e_itemizedlist cv el st = Inr (out, st')"
  shows "ordered_list_depth st' = ordered_list_depth st"
  using r
  by (auto simp: e_itemizedlist_def bnd_eq_Inr split_def Let_def stack_parent_def with_rubric_def e_para_def
      split: if_splits option.splits
      dest!: prim_depth [OF a] section_db_depth [OF a] supports_only_depth)

lemma e_orderedlist_depth:
  assumes a: "keeps_depth cv (xsize el)" and r: "e_orderedlist cv el st = Inr (out, st')"
  shows "ordered_list_depth st' = ordered_list_depth st"
  using r
  by (auto simp: e_orderedlist_def bnd_eq_Inr split_def Let_def stack_parent_def with_rubric_def e_para_def
      split: if_splits option.splits
      dest!: prim_depth [OF a] section_db_depth [OF a] supports_only_depth)

lemma e_listitem_depth:
  assumes a: "keeps_depth cv (xsize el)" and r: "e_listitem cv el st = Inr (out, st')"
  shows "ordered_list_depth st' = ordered_list_depth st"
  using r
  by (auto simp: e_listitem_def bnd_eq_Inr split_def Let_def stack_parent_def with_rubric_def e_para_def
      split: if_splits option.splits
      dest!: prim_depth [OF a] section_db_depth [OF a] supports_only_depth)

lemma e_variablelist_depth:
  assumes a: "keeps_depth cv (xsize el)" and r: "e_variablelist cv el st = Inr (out, st')"
  shows "ordered_list_depth st' = ordered_list_depth st"
  using r
  by (auto simp: e_variablelist_def bnd_eq_Inr split_def Let_def stack_parent_def with_rubric_def e_para_def
      split: if_splits option.splits
      dest!: prim_depth [OF a] section_db_depth [OF a] supports_only_depth)

lemma e_emphasis_depth:
  assumes a: "keeps_depth cv (xsize el)" and r: "e_emphasis cv el st = Inr (out, st')"
  shows "ordered_list_depth st' = ordered_list_depth st"
  using r
  by (auto simp: e_emphasis_def bnd_eq_Inr split_def Let_def stack_parent_def with_rubric_def e_para_def
      split: if_splits option.splits
      dest!: prim_depth [OF a] section_db_depth [OF a] supports_only_depth)

lemma e_phrase_depth:
  assumes a: "keeps_depth cv (xsize el)" and r: "e_phrase cv el st = Inr (out, st')"
  shows "ordered_list_depth st' = ordered_list_depth st"
  using r
  by (auto simp: e_phrase_def bnd_eq_Inr split_def Let_def stack_parent_def with_rubric_def e_para_def
      split: if_splits option.splits
      dest!: prim_depth [OF a] section_db_depth [OF a] supports_only_depth)

lemma e_literal_depth:
  assumes a: "keeps_depth cv (xsize el)" and r: "e_literal cv el st = Inr (out, st')"
  shows "ordered_list_depth st' = ordered_list_depth st"
  using r
  by (auto simp: e_literal_def bnd_eq_Inr split_def Let_def stack_parent_def with_rubric_def e_para_def
      split: if_splits option.splits
      dest!: prim_depth [OF a] section_db_depth [OF a] supports_only_depth)

lemma e_keycap_depth:
  assumes a: "keeps_depth cv (xsize el)" and r: "e_keycap cv el st = Inr (out, st')"
  shows "ordered_list_depth st' = ordered_list_depth st"
  using r
  by (auto simp: e_keycap_def bnd_eq_Inr split_def Let_def stack_parent_def with_rubric_def e_para_def
      split: if_splits option.splits
      dest!: prim_depth [OF a] section_db_depth [OF a] supports_only_depth)

lemma e_application_depth:
  assumes a: "keeps_depth cv (xsize el)" and r: "e_application cv el st = Inr (out, st')"
  shows "ordered_list_depth st' = ordered_list_depth st"
  using r
  by (auto simp: e_application_def bnd_eq_Inr split_def Let_def stack_parent_def with_rubric_def e_para_def
      split: if_splits option.splits
      dest!: prim_depth [OF a] section_db_depth [OF a] supports_only_depth)

lemma e_filename_depth:
  assumes a: "keeps_depth cv (xsize el)" and r: "e_filename cv el st = Inr (out, st')"
  shows "ordered_list_depth st' = ordered_list_depth st"
  using r
  by (auto simp: e_filename_def bnd_eq_Inr split_def Let_def stack_parent_def with_rubric_def e_para_def
      split: if_splits option.splits
      dest!: prim_depth [OF a] section_db_depth [OF a] supports_only_depth)

lemma e_command_depth:
  assumes a: "keeps_depth cv (xsize el)" and r: "e_command cv el st = Inr (out, st')"
  shows "ordered_list_depth st' = ordered_list_depth st"
  using r
  by (auto simp: e_command_def bnd_eq_Inr split_def Let_def stack_parent_def with_rubric_def e_para_def
      split: if_splits option.splits
      dest!: prim_depth [OF a] section_db_depth [OF a] supports_only_depth)

lemma e_option_depth:
  assumes a: "keeps_depth cv (xsize el)" and r: "e_option cv el st = Inr (out, st')"
  shows "ordered_list_depth st' = ordered_list_depth st"
  using r
  by (auto simp: e_option_def bnd_eq_Inr split_def Let_def stack_parent_def with_rubric_def e_para_def
      split: if_splits option.splits
      dest!: prim_depth [OF a] section_db_depth [OF a] supports_only_depth)

lemma e_envar_depth:
  assumes a: "keeps_depth cv (xsize el)" and r: "e_envar cv el st = Inr (out, st')"
  shows "ordered_list_depth st' = ordered_list_depth st"
  using r
  by (auto simp: e_envar_def bnd_eq_Inr split_def Let_def stack_parent_def with_rubric_def e_para_def
      split: if_splits option.splits
      dest!: prim_depth [OF a] section_db_depth [OF a] supports_only_depth)

lemma e_firstterm_depth:
  assumes a: "keeps_depth cv (xsize el)" and r: "e_firstterm cv el st = Inr (out, st')"
  shows "ordered_list_depth st' = ordered_list_depth st"
  using r
  by (auto simp: e_firstterm_def bnd_eq_Inr split_def Let_def stack_parent_def with_rubric_def e_para_def
      split: if_splits option.splits
      dest!: prim_depth [OF a] section_db_depth [OF a] supports_only_depth)

lemma e_userinput_depth:
  assumes a: "keeps_depth cv (xsize el)" and r: "e_userinput cv el st = Inr (out, st')"
  shows "ordered_list_depth st' = ordered_list_depth st"
  using r
  by (auto simp: e_userinput_def bnd_eq_Inr split_def Let_def stack_parent_def with_rubric_def e_para_def
      split: if_splits option.splits
      dest!: prim_depth [OF a] section_db_depth [OF a] supports_only_depth)

lemma e_subscript_depth:
  assumes a: "keeps_depth cv (xsize el)" and r: "e_subscript cv el st = Inr (out, st')"
  shows "ordered_list_depth st' = ordered_list_depth st"
  using r
  by (auto simp: e_subscript_def bnd_eq_Inr split_def Let_def stack_parent_def with_rubric_def e_para_def
      split: if_splits option.splits
      dest!: prim_depth [OF a] section_db_depth [OF a] supports_only_depth)

lemma e_superscript_depth:
  assumes a: "keeps_depth cv (xsize el)" and r: "e_superscript cv el st = Inr (out, st')"
  shows "ordered_list_depth st' = ordered_list_depth st"
  using r
  by (auto simp: e_superscript_def bnd_eq_Inr split_def Let_def stack_parent_def with_rubric_def e_para_def
      split: if_splits option.splits
      dest!: prim_depth [OF a] section_db_depth [OF a] supports_only_depth)

lemma e_quote_depth:
  assumes a: "keeps_depth cv (xsize el)" and r: "e_quote cv el st = Inr (out, st')"
  shows "ordered_list_depth st' = ordered_list_depth st"
  using r
  by (auto simp: e_quote_def bnd_eq_Inr split_def Let_def stack_parent_def with_rubric_def e_para_def
      split: if_splits option.splits
      dest!: prim_depth [OF a] section_db_depth [OF a] supports_only_depth)

lemma e_footnote_depth:
  assumes a: "keeps_depth cv (xsize el)" and r: "e_footnote cv el st = Inr (out, st')"
  shows "ordered_list_depth st' = ordered_list_depth st"
  using r
  by (auto simp: e_footnote_def bnd_eq_Inr split_def Let_def stack_parent_def with_rubric_def e_para_def
      split: if_splits option.splits
      dest!: prim_depth [OF a] section_db_depth [OF a] supports_only_depth)

lemma e_ulink_depth:
  assumes a: "keeps_depth cv (xsize el)" and r: "e_ulink cv el st = Inr (out, st')"
  shows "ordered_list_depth st' = ordered_list_depth st"
  using r
  by (auto simp: e_ulink_def bnd_eq_Inr split_def Let_def stack_parent_def with_rubric_def e_para_def
      split: if_splits option.splits
      dest!: prim_depth [OF a] section_db_depth [OF a] supports_only_depth)

lemma e_link_depth:
  assumes a: "keeps_depth cv (xsize el)" and r: "e_link cv el st = Inr (out, st')"
  shows "ordered_list_depth st' = ordered_list_depth st"
  using r
  by (auto simp: e_link_def bnd_eq_Inr split_def Let_def stack_parent_def with_rubric_def e_para_def
      split: if_splits option.splits
      dest!: prim_depth [OF a] section_db_depth [OF a] supports_only_depth)

lemma e_inlineequation_depth:
  assumes a: "keeps_depth cv (xsize el)" and r: "e_inlineequation cv el st = Inr (out, st')"
  shows "ordered_list_depth st' = ordered_list_depth st"
  using r
  by (auto simp: e_inlineequation_def bnd_eq_Inr split_def Let_def stack_parent_def with_rubric_def e_para_def
      split: if_splits option.splits
      dest!: prim_depth [OF a] section_db_depth [OF a] supports_only_depth)

lemma e_equation_depth:
  assumes a: "keeps_depth cv (xsize el)" and r: "e_equation cv el st = Inr (out, st')"
  shows "ordered_list_depth st' = ordered_list_depth st"
  using r
  by (auto simp: e_equation_def bnd_eq_Inr split_def Let_def stack_parent_def with_rubric_def e_para_def
      split: if_splits option.splits
      dest!: prim_depth [OF a] section_db_depth [OF a] supports_only_depth)

lemma e_mathphrase_depth:
  assumes a: "keeps_depth cv (xsize el)" and r: "e_mathphrase cv el st = Inr (out, st')"
  shows "ordered_list_depth st' = ordered_list_depth st"
  using r
  by (auto simp: e_mathphrase_def bnd_eq_Inr split_def Let_def stack_parent_def with_rubric_def e_para_def
      split: if_splits option.splits
      dest!: prim_depth [OF a] section_db_depth [OF a] supports_only_depth)

lemma e_refentry_depth:
  assumes a: "keeps_depth cv (xsize el)" and r: "e_refentry cv el st = Inr (out, st')"
  shows "ordered_list_depth st' = ordered_list_depth st"
  using r
  by (auto simp: e_refentry_def bnd_eq_Inr split_def Let_def stack_parent_def with_rubric_def e_para_def
      split: if_splits option.splits
      dest!: prim_depth [OF a] section_db_depth [OF a] supports_only_depth)

lemma e_refsect1_depth:
  assumes a: "keeps_depth cv (xsize el)" and r: "e_refsect1 cv el st = Inr (out, st')"
  shows "ordered_list_depth st' = ordered_list_depth st"
  using r
  by (auto simp: e_refsect1_def bnd_eq_Inr split_def Let_def stack_parent_def with_rubric_def e_para_def
      split: if_splits option.splits
      dest!: prim_depth [OF a] section_db_depth [OF a] supports_only_depth)

lemma e_funcparams_depth:
  assumes a: "keeps_depth cv (xsize el)" and r: "e_funcparams cv el st = Inr (out, st')"
  shows "ordered_list_depth st' = ordered_list_depth st"
  using r
  by (auto simp: e_funcparams_def bnd_eq_Inr split_def Let_def stack_parent_def with_rubric_def e_para_def
      split: if_splits option.splits
      dest!: prim_depth [OF a] section_db_depth [OF a] supports_only_depth)

lemma e_parameter_depth:
  assumes a: "keeps_depth cv (xsize el)" and r: "e_parameter cv el st = Inr (out, st')"
  shows "ordered_list_depth st' = ordered_list_depth st"
  using r
  by (auto simp: e_parameter_def bnd_eq_Inr split_def Let_def stack_parent_def with_rubric_def e_para_def
      split: if_splits option.splits
      dest!: prim_depth [OF a] section_db_depth [OF a] supports_only_depth)


lemma e_anchor_depth:
  "e_anchor el st = Inr (out, st') \<Longrightarrow> ordered_list_depth st' = ordered_list_depth st"
  by (auto simp: e_anchor_def)

lemma nop_depth:
  "nop el st = Inr (out, st') \<Longrightarrow> ordered_list_depth st' = ordered_list_depth st"
  by (auto simp: nop_def)

lemma e_cmdsynopsis_depth:
  "e_cmdsynopsis el st = Inr (out, st') \<Longrightarrow> ordered_list_depth st' = ordered_list_depth st"
  by (auto simp: e_cmdsynopsis_def bnd_eq_Inr split_def Let_def)

lemma e_xref_depth:
  "e_xref el st = Inr (out, st') \<Longrightarrow> ordered_list_depth st' = ordered_list_depth st"
  by (auto simp: e_xref_def split_def Let_def split: option.splits)

lemma e_refname_depth:
  "e_refname el st = Inr (out, st') \<Longrightarrow> ordered_list_depth st' = ordered_list_depth st"
  by (auto simp: e_refname_def no_markup_def bnd_eq_Inr split_def Let_def)

lemma e_indexterm_depth:
  assumes r: "e_indexterm el st = Inr (out, st')"
  shows "ordered_list_depth st' = ordered_list_depth st"
proof (cases "findall el (ns_db st @ ''primary'')")
  case Nil
  with r show ?thesis
    by (auto simp: e_indexterm_def bnd_eq_Inr dest!: supports_only_depth)
next
  case (Cons p ps)
  with r show ?thesis
    by (auto simp: e_indexterm_def bnd_eq_Inr split_def Let_def dest!: supports_only_depth)
qed

lemma e_varlistentry_depth:
  assumes a: "keeps_depth cv (xsize el)" and r: "e_varlistentry cv el st = Inr (out, st')"
  shows "ordered_list_depth st' = ordered_list_depth st"
proof -
  have b: "blocks cv (findall el t) k s = Inr (x, s') \<Longrightarrow>
      ordered_list_depth s' = ordered_list_depth s" for t k s x s'
    using blocks_depth [of "findall el t" "xsize el" cv] a by (simp add: findall_size)
  have c: "find_el el t = Some item \<Longrightarrow> block_out cv item (Some k) s = Inr (x, s') \<Longrightarrow>
      ordered_list_depth s' = ordered_list_depth s" for t item k s x s'
    using keeps_depth_mono [OF a, of "xsize item"]
    by (auto dest!: find_el_size intro: block_out_depth)
  show ?thesis
  proof (cases "find_el el (ns_db st @ ''listitem'')")
    case None
    with r show ?thesis
      by (auto simp: e_varlistentry_def bnd_eq_Inr split_def Let_def
          dest!: supports_only_depth b)
  next
    case (Some item)
    with r show ?thesis
      by (auto simp: e_varlistentry_def bnd_eq_Inr split_def Let_def
          dest!: supports_only_depth b c [OF Some])
  qed
qed

lemma e_funcprototype_depth:
  assumes a: "keeps_depth cv (xsize el)" and r: "e_funcprototype cv el st = Inr (out, st')"
  shows "ordered_list_depth st' = ordered_list_depth st"
proof -
  have b: "paramdefs_loop cv (findall el t) sep s = Inr (x, s') \<Longrightarrow>
      ordered_list_depth s' = ordered_list_depth s" for t sep s x s'
    using paramdefs_loop_depth [of "findall el t" "xsize el" cv] a by (simp add: findall_size)
  have c: "find_el el t = Some fd \<Longrightarrow> cv fd s = Inr (x, s') \<Longrightarrow>
      ordered_list_depth s' = ordered_list_depth s" for t fd s x s'
    using a by (auto dest!: find_el_size dest: keeps_depthD)
  show ?thesis
  proof (cases "find_el el (ns_db st @ ''funcdef'')")
    case None
    with r show ?thesis
      by (auto simp: e_funcprototype_def bnd_eq_Inr)
  next
    case (Some fd)
    with r show ?thesis
      by (auto simp: e_funcprototype_def bnd_eq_Inr split_def Let_def
          dest!: supports_only_depth b c [OF Some])
  qed
qed

lemmas handlers_depth =
  e_chapter_depth e_sect1_depth e_sect2_depth e_sect3_depth e_section_depth e_title_depth
  e_blockquote_depth e_epigraph_depth e_sidebar_depth e_para_depth e_formalpara_depth
  e_note_depth e_caution_depth e_important_depth e_tip_depth e_warning_depth e_concat_depth
  e_block_depth e_literallayout_depth e_glosslist_depth e_glossentry_depth e_glossterm_depth
  e_glossdef_depth e_itemizedlist_depth e_orderedlist_depth e_listitem_depth
  e_variablelist_depth e_varlistentry_depth e_emphasis_depth e_phrase_depth e_literal_depth
  e_keycap_depth e_application_depth e_filename_depth e_command_depth e_option_depth
  e_envar_depth e_firstterm_depth e_userinput_depth e_subscript_depth e_superscript_depth
  e_quote_depth e_footnote_depth e_ulink_depth e_link_depth e_inlineequation_depth
  e_equation_depth e_mathphrase_depth e_refentry_depth e_refsect1_depth
  e_funcprototype_depth e_funcparams_depth e_parameter_depth

lemma handler_depth:
  assumes a: "keeps_depth cv (xsize el)" and h: "(name, h) \<in> set handlers"
    and r: "h cv el st = Inr (out, st')"
  shows "ordered_list_depth st' = ordered_list_depth st"
  using h r unfolding handlers_def
  by (auto dest: handlers_depth [OF a] e_anchor_depth nop_depth e_cmdsynopsis_depth
      e_xref_depth e_refname_depth e_indexterm_depth)

lemma method_name_depth:
  "method_name el s = Inr (tag, m, s1) \<Longrightarrow> ordered_list_depth s1 = ordered_list_depth s"
  by (auto simp: method_name_def Let_def split: if_splits list.splits option.splits)

lemma conv_step_not_pi:
  "\<not> (\<exists>tx ta. el = XPI tx ta) \<Longrightarrow>
   conv_step cv el st =
      (if xtag el = TagComment \<and> strip (str_of_opt (xtext el)) \<noteq> [] then
         (let (c, st1) = new_comment (str_of_opt (xtext el)) st in Inr ([c], st1))
       else
         bnd (method_name el st) (\<lambda>(tag, m, st1).
         bnd ((case lookup_handler m of Some h \<Rightarrow> h cv el | None \<Rightarrow> passthrough cv el)
                (st1\<lparr>stack := stack st1 @ [tag]\<rparr>))
           (\<lambda>(out, st2). Inr (out, st2\<lparr>stack := butlast (stack st2)\<rparr>))))"
  by (cases el; hypsubst; simp add: conv_step_def)

lemma conv_step_depth:
  assumes a: "keeps_depth cv (xsize el)" and r: "conv_step cv el st = Inr (out, st')"
  shows "ordered_list_depth st' = ordered_list_depth st"
proof (cases "\<exists>tx ta. el = XPI tx ta")
  case True
  with r show ?thesis by (auto simp: conv_step_def)
next
  case False
  note c = conv_step_not_pi [OF False, of cv st]
  show ?thesis
  proof (cases "xtag el = TagComment \<and> strip (str_of_opt (xtext el)) \<noteq> []")
    case True
    with r c show ?thesis by (auto simp: split_def Let_def)
  next
    case False
    with r c obtain tag m s1 x s2 where
      mm: "method_name el st = Inr (tag, m, s1)" and
      hh: "(case lookup_handler m of Some h \<Rightarrow> h cv el | None \<Rightarrow> passthrough cv el)
             (s1\<lparr>stack := stack s1 @ [tag]\<rparr>) = Inr (x, s2)" and
      ss: "st' = s2\<lparr>stack := butlast (stack s2)\<rparr>"
      by (auto simp: bnd_eq_Inr split_def)
    have "ordered_list_depth s2 = ordered_list_depth (s1\<lparr>stack := stack s1 @ [tag]\<rparr>)"
    proof (cases "lookup_handler m")
      case None
      with hh show ?thesis
        by (auto simp: passthrough_def dest!: concat_out_depth [OF a])
    next
      case (Some h)
      then obtain name where "(name, h) \<in> set handlers"
        by (auto simp: lookup_handler_def split: option.splits dest!: map_of_SomeD)
      with hh Some show ?thesis
        by (auto dest: handler_depth [OF a])
    qed
    with mm ss show ?thesis
      by (auto dest: method_name_depth)
  qed
qed

lemma conv_depth:
  "conv el st = Inr (out, st') \<Longrightarrow> ordered_list_depth st' = ordered_list_depth st"
proof (induction el st arbitrary: out st' rule: conv.induct)
  case (1 el st)
  have "keeps_depth conv (xsize el)"
    unfolding keeps_depth_def using "1.IH" by blast
  then show ?case
    using "1.prems" by (subst (asm) conv.simps) (rule conv_step_depth)
qed


lemma startswith_append [simp]: "startswith (p @ s) p"
  by (induction p) simp_all

lemma method_name_docbook:
  "method_name (XElem (ns_db st @ name) a tx cs ta) st = Inr (name, Some (''e_'' @ name), st)"
  by (simp add: method_name_def)

lemma conv_docbook:
  assumes "map_of handlers (''e_'' @ name) = Some h"
  shows "conv (XElem (ns_db st @ name) a tx cs ta) st =
     bnd (h conv (XElem (ns_db st @ name) a tx cs ta) (st\<lparr>stack := stack st @ [name]\<rparr>))
       (\<lambda>(out, st2). Inr (out, st2\<lparr>stack := butlast (stack st2)\<rparr>))"
  using assms
  by (subst conv.simps) (simp add: conv_step_def method_name_docbook lookup_handler_def)

lemma keeps_depth_conv: "keeps_depth conv n"
  unfolding keeps_depth_def by (blast dest: conv_depth)

lemma node_db_Some:
  "node_db (Some k) d x i st = (w, st1) \<Longrightarrow> \<exists>a. w = Some (Elem (next_node st) k a [])"
  by (auto simp: node_db_def create_node_def Let_def)

lemma create_Some:
  "create el (Some k) d st = (w, st1) \<Longrightarrow> \<exists>a. w = Some (Elem (next_node st) k a [])"
  by (auto simp: create_def dest: node_db_Some)

lemma block_Some:
  "block cv el (Some k) st = Inr (w, items, fl, st1) \<Longrightarrow>
   \<exists>a. w = Some (Elem (next_node st) k a [])"
  by (auto simp: block_def concat_db_def bnd_eq_Inr split: prod.splits dest: create_Some)

lemma map_of_update [simp]: "map_of (AList.update k v al) = (map_of al)(k \<mapsto> v)"
  by (rule update_conv')

text \<open>
  C6. When the conversion of an ordered list returns, the depth counter has the value it
  had before, and the list node is first among the appended nodes with its numbering
  style chosen by the nesting depth of the list, which is the counter before the list
  plus one: \<^verbatim>\<open>arabic\<close> at depth 1, \<^verbatim>\<open>loweralpha\<close> at depth 2 or more (and at any
  other depth).
\<close>

theorem orderedlist_numbering_and_depth:
  assumes "conv (XElem (ns_db st @ ''orderedlist'') a tx cs ta) st = Inr (out, st')"
  shows "ordered_list_depth st' = ordered_list_depth st \<and>
    (\<exists>n attrs ch flushed. out = Elem n K_enumerated_list attrs ch # flushed \<and>
       map_of attrs ''enumtype'' =
         Some (VStr (if ordered_list_depth st + 1 = 1 then ''arabic'' else ''loweralpha'')))"
proof -
  let ?el = "XElem (ns_db st @ ''orderedlist'') a tx cs ta"
  let ?st0 = "st\<lparr>stack := stack st @ [''orderedlist'']\<rparr>"
  have d: "ordered_list_depth st' = ordered_list_depth st"
    using assms by (rule conv_depth)
  have h: "map_of handlers (''e_'' @ ''orderedlist'') = Some e_orderedlist"
    by (simp add: handlers_def)
  from assms obtain s2 where
    r: "e_orderedlist conv ?el ?st0 = Inr (out, s2)"
    by (auto simp: conv_docbook [OF h] bnd_eq_Inr)
  from r obtain st1 w items fl st2 where
    s: "supports_only ?el (TagsStr (ns_db ?st0 @ ''listitem'')) ?st0 = Inr st1" and
    b: "block conv ?el (Some K_enumerated_list)
          (st1\<lparr>ordered_list_depth := ordered_list_depth st1 + 1\<rparr>) = Inr (w, items, fl, st2)" and
    o: "out = attach (map_option (set_attr ''suffix'' (VStr ''.'') \<circ> set_attr ''prefix'' (VStr [])
            \<circ> set_attr ''enumtype''
                (VStr (if ordered_list_depth st2 = 1 then ''arabic'' else ''loweralpha''))) w)
          items @ fl"
    by (auto simp: e_orderedlist_def bnd_eq_Inr Let_def)
  have "ordered_list_depth st1 = ordered_list_depth st"
    using supports_only_depth [OF s] by simp
  moreover have "ordered_list_depth st2 = ordered_list_depth st1 + 1"
    using block_depth [OF keeps_depth_conv b] by simp
  ultimately have d2: "ordered_list_depth st2 = ordered_list_depth st + 1" by simp
  from block_Some [OF b] obtain n at where w: "w = Some (Elem n K_enumerated_list at [])"
    by blast
  show ?thesis
    using d by (simp add: o w d2 attach_def)
qed

text \<open>An ordered list inside an item of an ordered list: the outer list is numbered
  \<^verbatim>\<open>arabic\<close>, the inner one \<^verbatim>\<open>loweralpha\<close>, and the counter is back at 0.\<close>

theorem orderedlist_numbering_and_depth_witness:
  "\<exists>st'. conv (XElem ''orderedlist'' [] None
       [XElem ''listitem'' [] None
          [XElem ''para'' [] (Some ''one'') [] None,
           XElem ''orderedlist'' [] None
             [XElem ''listitem'' [] None [XElem ''para'' [] (Some ''inner'') [] None] None]
             None] None] None) (init False)
     = Inr ([Elem 0 K_enumerated_list
               [(''ids'', VList []), (''enumtype'', VStr ''arabic''), (''prefix'', VStr []),
                (''suffix'', VStr ''.'')]
               [Elem 1 K_list_item [(''ids'', VList [])]
                  [Elem 2 K_paragraph [(''ids'', VList [])] [Text 3 ''one''],
                   Elem 4 K_enumerated_list
                     [(''ids'', VList []), (''enumtype'', VStr ''loweralpha''),
                      (''prefix'', VStr []), (''suffix'', VStr ''.'')]
                     [Elem 5 K_list_item [(''ids'', VList [])]
                        [Elem 6 K_paragraph [(''ids'', VList [])] [Text 7 ''inner'']]]]]], st') \<and>
     ordered_list_depth st' = 0"
proof -
  let ?kids = "[XElem ''listitem'' [] None
          [XElem ''para'' [] (Some ''one'') [] None,
           XElem ''orderedlist'' [] None
             [XElem ''listitem'' [] None [XElem ''para'' [] (Some ''inner'') [] None] None]
             None] None]"
  let ?out = "[Elem 0 K_enumerated_list
               [(''ids'', VList []), (''enumtype'', VStr ''arabic''), (''prefix'', VStr []),
                (''suffix'', VStr ''.'')]
               [Elem 1 K_list_item [(''ids'', VList [])]
                  [Elem 2 K_paragraph [(''ids'', VList [])] [Text 3 ''one''],
                   Elem 4 K_enumerated_list
                     [(''ids'', VList []), (''enumtype'', VStr ''loweralpha''),
                      (''prefix'', VStr []), (''suffix'', VStr ''.'')]
                     [Elem 5 K_list_item [(''ids'', VList [])]
                        [Elem 6 K_paragraph [(''ids'', VList [])] [Text 7 ''inner'']]]]]]"
  have "result_nodes (conv (XElem ''orderedlist'' [] None ?kids None) (init False)) = Inr ?out"
    by code_simp
  then obtain st' where
    c: "conv (XElem ''orderedlist'' [] None ?kids None) (init False) = Inr (?out, st')"
    by (auto simp: result_nodes_def split: sum.splits)
  have n: "ns_db (init False) @ ''orderedlist'' = ''orderedlist''"
    by (simp add: ns_db_def init_def)
  have "ordered_list_depth st' = ordered_list_depth (init False)"
    using orderedlist_numbering_and_depth [of "init False" "[]" None ?kids None ?out st'] c
    unfolding n by blast
  then have "ordered_list_depth st' = 0"
    by (simp add: init_def)
  with c show ?thesis by blast
qed



subsection \<open>Structural passthrough\<close>

text \<open>\<open>concat_into\<close> with its pending text does what the specification describes.\<close>

lemma concat_loop_spec:
  "bnd (concat_loop cv cs p st)
     (\<lambda>(out, p', st1). let (fin, st2) = emit p' st1 in Inr (out @ fin, st2))
   = passthrough_spec cv p cs st"
proof (induction cs arbitrary: p st)
  case Nil
  show ?case
    by (simp add: passthrough_spec_def split_def Let_def)
next
  case (Cons c cs)
  show ?case
  proof (cases "cv c (snd (emit p st))")
    case (Inl e)
    then show ?thesis
      by (simp add: passthrough_spec_def split_def Let_def)
  next
    case (Inr r)
    obtain o2 st2 where r: "r = (o2, st2)" by (cases r)
    have ih: "bnd (concat_loop cv cs (xtail c) st2)
        (\<lambda>(out, p', st1). let (fin, st2) = emit p' st1 in Inr (out @ fin, st2))
      = passthrough_spec cv (xtail c) cs st2"
      by (rule Cons.IH)
    show ?thesis
    proof (cases "concat_loop cv cs (xtail c) st2")
      case (Inl e)
      with ih have "passthrough_spec cv (xtail c) cs st2 = Inl e" by simp
      then have "convert_each cv cs (snd (emit (xtail c) st2)) = Inl e"
        by (auto simp: passthrough_spec_def split_def Let_def split: sum.splits)
      with Inl Inr r show ?thesis
        by (simp add: passthrough_spec_def split_def Let_def)
    next
      case (Inr q)
      obtain o3 p3 st3 where q: "q = (o3, p3, st3)" by (cases q)
      from ih Inr q have
        "passthrough_spec cv (xtail c) cs st2 = Inr (o3 @ fst (emit p3 st3), snd (emit p3 st3))"
        by (simp add: split_def Let_def)
      then obtain o4 where
        e: "convert_each cv cs (snd (emit (xtail c) st2)) = Inr (o4, snd (emit p3 st3))" and
        f: "o3 @ fst (emit p3 st3) = fst (emit (xtail c) st2) @ o4"
        by (auto simp: passthrough_spec_def split_def Let_def split: sum.splits)
      from Inr q \<open>cv c (snd (emit p st)) = Inr r\<close> r e f show ?thesis
        by (simp add: passthrough_spec_def split_def Let_def)
    qed
  qed
qed

lemma concat_into_spec:
  "concat_into cv el True st = passthrough_spec cv (xtext el) (getchildren el) st"
  using concat_loop_spec [of cv "getchildren el" "xtext el" st]
  by (simp add: concat_into_def)

lemma method_name_docbook5:
  "method_name el st = Inr (tag, m, st1) \<Longrightarrow> docbook5 st1 = docbook5 st"
  by (auto simp: method_name_def Let_def warning_def split: if_splits list.splits option.splits)

lemma xml_id_of_cong: "docbook5 s = docbook5 st \<Longrightarrow> xml_id_of el s = xml_id_of el st"
  by (simp add: xml_id_of_def id_attrib_def)

lemma report_unknown_tag_docbook5 [simp]:
  "docbook5 (report_unknown_tag el st) = docbook5 st"
  by (simp add: report_unknown_tag_def warning_def)

lemma method_name_tag:
  "xtag el' = xtag el \<Longrightarrow> method_name el' st = method_name el st"
  by (auto simp: method_name_def Let_def split: list.splits option.splits)

lemma report_unknown_tag_tag:
  "xtag el' = xtag el \<Longrightarrow> report_unknown_tag el' st = report_unknown_tag el st"
  by (simp add: report_unknown_tag_def)

text \<open>
  C3, as the code has it. Let an element have no handler (the method name that
  \<open>method_name\<close> gives is not an attribute of the converter) and no non-empty id
  attribute. Then converting it appends exactly what converting its text and each child
  in order appends (\<open>passthrough_spec\<close>), nothing being made for the wrapper itself,
  after the tag has been reported if it was not reported before; and the result is the
  same for any other attributes that include no non-empty id.
\<close>

theorem passthrough_concatenates:
  assumes m: "method_name (XElem t a tx cs ta) st = Inr (tag, m, st1)"
    and l: "lookup_handler m = None"
    and i: "xml_id_of (XElem t a tx cs ta) st = VNone"
  shows "conv (XElem t a tx cs ta) st =
      bnd (passthrough_spec conv tx cs
             (report_unknown_tag (XElem t a tx cs ta) (st1\<lparr>stack := stack st1 @ [tag]\<rparr>)))
        (\<lambda>(out, st2). Inr (out, st2\<lparr>stack := butlast (stack st2)\<rparr>)) \<and>
    (\<forall>a'. xml_id_of (XElem t a' tx cs ta) st = VNone \<longrightarrow>
       conv (XElem t a' tx cs ta) st = conv (XElem t a tx cs ta) st)"
proof -
  have step: "conv (XElem t b tx cs ta) st =
      bnd (passthrough_spec conv tx cs
             (report_unknown_tag (XElem t a tx cs ta) (st1\<lparr>stack := stack st1 @ [tag]\<rparr>)))
        (\<lambda>(out, st2). Inr (out, st2\<lparr>stack := butlast (stack st2)\<rparr>))"
    if b: "xml_id_of (XElem t b tx cs ta) st = VNone" for b
  proof -
    let ?el = "XElem t b tx cs ta"
    let ?s = "report_unknown_tag ?el (st1\<lparr>stack := stack st1 @ [tag]\<rparr>)"
    have mb: "method_name ?el st = Inr (tag, m, st1)"
      using m method_name_tag [of ?el "XElem t a tx cs ta" st] by simp
    have "xml_id_of ?el ?s = VNone"
      using b method_name_docbook5 [OF mb] xml_id_of_cong [of ?s st ?el] by simp
    then have c: "concat_out conv ?el None True ?s = passthrough_spec conv tx cs ?s"
      using concat_into_spec [of conv ?el ?s]
      by (simp add: concat_out_def concat_db_def create_def node_db_def attach_def
          split_def bnd_def split: sum.splits)
    have "?s = report_unknown_tag (XElem t a tx cs ta) (st1\<lparr>stack := stack st1 @ [tag]\<rparr>)"
      by (rule report_unknown_tag_tag) simp
    with c show ?thesis
      by (subst conv.simps) (simp add: conv_step_def mb l passthrough_def)
  qed
  from step [OF i] step show ?thesis by simp
qed

text \<open>An unknown \<^verbatim>\<open>wrapper\<close> with a \<^verbatim>\<open>role\<close> attribute, a text and one child.\<close>

theorem passthrough_concatenates_witness:
  "conv (XElem ''wrapper'' [(''role'', ''r'')] (Some ''t'')
           [XElem ''emphasis'' [] (Some ''e'') [] (Some ''tail'')] None) (init False)
     = bnd (passthrough_spec conv (Some ''t'') [XElem ''emphasis'' [] (Some ''e'') [] (Some ''tail'')]
              (report_unknown_tag (XElem ''wrapper'' [(''role'', ''r'')] (Some ''t'')
                 [XElem ''emphasis'' [] (Some ''e'') [] (Some ''tail'')] None)
                 ((init False)\<lparr>stack := stack (init False) @ [''wrapper'']\<rparr>)))
         (\<lambda>(out, st2). Inr (out, st2\<lparr>stack := butlast (stack st2)\<rparr>)) \<and>
   result_nodes (conv (XElem ''wrapper'' [(''role'', ''r'')] (Some ''t'')
           [XElem ''emphasis'' [] (Some ''e'') [] (Some ''tail'')] None) (init False))
     = Inr [Text 0 ''t'', Elem 1 K_emphasis [(''ids'', VList [])] [Text 2 ''e''], Text 3 ''tail''] \<and>
   conv (XElem ''wrapper'' [] (Some ''t'')
           [XElem ''emphasis'' [] (Some ''e'') [] (Some ''tail'')] None) (init False)
     = conv (XElem ''wrapper'' [(''role'', ''r'')] (Some ''t'')
           [XElem ''emphasis'' [] (Some ''e'') [] (Some ''tail'')] None) (init False)"
proof -
  let ?k = "[XElem ''emphasis'' [] (Some ''e'') [] (Some ''tail'')]"
  let ?w = "XElem ''wrapper'' [(''role'', ''r'')] (Some ''t'') ?k None"
  have m: "method_name ?w (init False) = Inr (''wrapper'', Some ''e_wrapper'', init False)"
    by (simp add: method_name_def ns_db_def init_def Let_def)
  have l: "lookup_handler (Some ''e_wrapper'') = None"
    by (simp add: lookup_handler_def handlers_def)
  have i: "xml_id_of ?w (init False) = VNone"
    by (simp add: xml_id_of_def xget_def id_attrib_def init_def)
  have j: "xml_id_of (XElem ''wrapper'' [] (Some ''t'') ?k None) (init False) = VNone"
    by (simp add: xml_id_of_def xget_def id_attrib_def init_def)
  have e: "result_nodes (conv ?w (init False))
     = Inr [Text 0 ''t'', Elem 1 K_emphasis [(''ids'', VList [])] [Text 2 ''e''], Text 3 ''tail'']"
    by code_simp
  from passthrough_concatenates [OF m l i] j e show ?thesis
    by blast
qed

text \<open>The claim of C3 as stated fails for the id attribute: a wrapper with an id becomes
  an inline node that carries the id and holds the content, a wrapper without one
  leaves only the content.\<close>

theorem passthrough_id_counterexample:
  "result_nodes (convert_root False (XElem ''wrapper'' [(''id'', ''w1'')] (Some ''t'') [] None))
     = Inr [Elem 0 K_inline [(''ids'', VList [VStr ''w1''])] [Text 1 ''t'']] \<and>
   result_nodes (convert_root False (XElem ''wrapper'' [] (Some ''t'') [] None))
     = Inr [Text 0 ''t'']"
  by code_simp


subsection \<open>Itemized lists\<close>

text \<open>Conversion of elements of the DocBook namespace, and of an itemized list with one
  item that holds one paragraph of text.\<close>

lemma ns_db_update [simp]:
  "ns_db (not_handled_ns_update f1 st) = ns_db st"
  "ns_db (not_handled_tags_update f2 st) = ns_db st"
  "ns_db (save_update f3 st) = ns_db st"
  "ns_db (stack_update f4 st) = ns_db st"
  "ns_db (anchors_update f5 st) = ns_db st"
  "ns_db (title_handler_update f6 st) = ns_db st"
  "ns_db (listitem_mangle_fn_update f7 st) = ns_db st"
  "ns_db (text_mangle_fn_update f8 st) = ns_db st"
  "ns_db (ordered_list_depth_update f9 st) = ns_db st"
  "ns_db (current_level_update f10 st) = ns_db st"
  "ns_db (reports_update f11 st) = ns_db st"
  "ns_db (next_node_update f12 st) = ns_db st"
  by (simp_all add: ns_db_def)

lemma id_attrib_update [simp]:
  "id_attrib (not_handled_ns_update f1 st) = id_attrib st"
  "id_attrib (not_handled_tags_update f2 st) = id_attrib st"
  "id_attrib (save_update f3 st) = id_attrib st"
  "id_attrib (stack_update f4 st) = id_attrib st"
  "id_attrib (anchors_update f5 st) = id_attrib st"
  "id_attrib (title_handler_update f6 st) = id_attrib st"
  "id_attrib (listitem_mangle_fn_update f7 st) = id_attrib st"
  "id_attrib (text_mangle_fn_update f8 st) = id_attrib st"
  "id_attrib (ordered_list_depth_update f9 st) = id_attrib st"
  "id_attrib (current_level_update f10 st) = id_attrib st"
  "id_attrib (reports_update f11 st) = id_attrib st"
  "id_attrib (next_node_update f12 st) = id_attrib st"
  by (simp_all add: id_attrib_def)

lemma conv_docbook_ns:
  assumes "ns_db s = ns" "map_of handlers (''e_'' @ name) = Some h"
  shows "conv (XElem (ns @ name) a tx cs ta) s =
     bnd (h conv (XElem (ns @ name) a tx cs ta) (s\<lparr>stack := stack s @ [name]\<rparr>))
       (\<lambda>(out, st2). Inr (out, st2\<lparr>stack := butlast (stack st2)\<rparr>))"
  using conv_docbook [OF assms(2), of s a tx cs ta] assms(1) by simp

lemma handler_itemizedlist: "map_of handlers (''e_'' @ ''itemizedlist'') = Some e_itemizedlist"
  by (simp add: handlers_def)

lemma handler_listitem: "map_of handlers (''e_'' @ ''listitem'') = Some e_listitem"
  by (simp add: handlers_def)

lemma handler_para: "map_of handlers (''e_'' @ ''para'') = Some e_para"
  by (simp add: handlers_def)

lemmas conv_itemizedlist = conv_docbook_ns [OF _ handler_itemizedlist]
lemmas conv_listitem = conv_docbook_ns [OF _ handler_listitem]
lemmas conv_para = conv_docbook_ns [OF _ handler_para]

lemma startswith_refl [simp]: "startswith s s"
  by (induction s) simp_all

lemma str_contains_refl [simp]: "str_contains s s"
  by (cases s) simp_all

lemma blank_lstrip: "blank x \<Longrightarrow> emit (map_option lstrip x) s = ([], s)"
  by (cases x) (auto simp: blank_def emit_def lstrip_def list_all_iff dropWhile_eq_Nil_conv)

lemma blank_rstrip: "blank x \<Longrightarrow> emit (map_option rstrip x) s = ([], s)"
  by (cases x) (auto simp: blank_def emit_def rstrip_def list_all_iff dropWhile_eq_Nil_conv)

lemma create_node_eq:
  "create_node k x i s =
     (Elem (next_node s) k (node_attrs x i s) [], s\<lparr>anchors := [], next_node := Suc (next_node s)\<rparr>)"
  by (simp add: create_node_def node_attrs_def Let_def)

lemma create_Some_eq:
  "create el (Some k) d s =
     (Some (Elem (next_node s) k (node_attrs (xml_id_of el s) None s) []),
      s\<lparr>anchors := [], next_node := Suc (next_node s)\<rparr>)"
  by (simp add: create_def node_db_def create_node_eq)

lemma block_leaf:
  assumes "rstrip (lstrip t) \<noteq> []"
  shows "block cv (XElem tg at (Some t) [] ta) (Some k) s =
     Inr (Some (Elem (next_node s) k (node_attrs (xml_id_of (XElem tg at (Some t) [] ta) s) None s) []),
          [Text (Suc (next_node s)) (mangled (text_mangle_fn s) (rstrip (lstrip t)))],
          save s,
          s\<lparr>save := [], anchors := [], text_mangle_fn := None,
            next_node := Suc (Suc (next_node s))\<rparr>)"
  using assms
  by (simp add: block_def concat_db_def concat_into_def create_Some_eq emit_def text_node_def
      mangled_def)

lemma block_single:
  assumes "blank tx" "blank (xtail c)"
    and "cv c (s\<lparr>anchors := [], next_node := Suc (next_node s)\<rparr>) = Inr (outc, s3)"
  shows "block cv (XElem tg at tx [c] ta) (Some k) s =
     Inr (Some (Elem (next_node s) k (node_attrs (xml_id_of (XElem tg at tx [c] ta) s) None s) []),
          outc, save s3, s3\<lparr>save := []\<rparr>)"
  using assms
  by (simp add: block_def concat_db_def concat_into_def create_Some_eq blank_lstrip blank_rstrip)

lemma para_conv:
  assumes "rstrip (lstrip t) \<noteq> []" "save s = []" "ns_db s = ns"
  shows "\<exists>a s'. conv (XElem (ns @ ''para'') pa (Some t) [] ptail) s =
       Inr ([Elem (next_node s) K_paragraph a
               [Text (Suc (next_node s)) (mangled (text_mangle_fn s) (rstrip (lstrip t)))]], s') \<and>
     advanced s 2 s'"
  using assms
  by (simp add: conv_para e_para_def block_out_def block_leaf attach_def advanced_def)

lemma listitem_conv:
  assumes t: "rstrip (lstrip t) \<noteq> []" and sv: "save s = []" and ns: "ns_db s = ns"
    and b1: "blank itx" and b2: "blank ptail"
  shows "\<exists>a2 a3 s'.
     conv (XElem (ns @ ''listitem'') ia itx [XElem (ns @ ''para'') pa (Some t) [] ptail] itail) s =
       Inr ([Elem (next_node s) K_list_item a2
               [Elem (next_node s + 1) K_paragraph a3
                  [Text (next_node s + 2)
                     (mangled (listitem_mangle_fn s) (rstrip (lstrip t)))]]], s') \<and>
     advanced s 3 s'"
proof -
  let ?para = "XElem (ns @ ''para'') pa (Some t) [] ptail"
  let ?item = "XElem (ns @ ''listitem'') ia itx [?para] itail"
  let ?s1 = "s\<lparr>stack := stack s @ [''listitem'']\<rparr>"
  let ?s2 = "?s1\<lparr>text_mangle_fn := listitem_mangle_fn ?s1, listitem_mangle_fn := None\<rparr>"
  let ?s3 = "?s2\<lparr>anchors := [], next_node := Suc (next_node ?s2)\<rparr>"
  have "save ?s3 = []" "ns_db ?s3 = ns"
    using sv ns by simp_all
  from para_conv [OF t this, of pa ptail] obtain a3 s4 where
    p: "conv ?para ?s3 =
       Inr ([Elem (next_node ?s3) K_paragraph a3
               [Text (Suc (next_node ?s3)) (mangled (text_mangle_fn ?s3) (rstrip (lstrip t)))]], s4)"
    and adv: "advanced ?s3 2 s4"
    by blast
  have b2': "blank (xtail ?para)" using b2 by simp
  note b = block_single [where cv = conv and c = ?para and s = ?s2 and tg = "ns @ ''listitem''"
      and at = ia and ta = itail and k = K_list_item, OF b1 b2' p]
  have c: "conv ?item s = bnd (e_listitem conv ?item ?s1)
       (\<lambda>(out, st2). Inr (out, st2\<lparr>stack := butlast (stack st2)\<rparr>))"
    by (rule conv_listitem [OF ns])
  show ?thesis
    unfolding c e_listitem_def block_out_def b
    using adv by (simp add: attach_def advanced_def)
qed

lemma single_item_list:
  assumes sv: "save st = []" and b0: "blank ltx" and b1: "blank itx" and b2: "blank ptail"
    and b3: "blank itail" and len: "2 \<le> length t" and t: "rstrip (lstrip t) \<noteq> []"
  shows "\<exists>a1 a2 a3 st'.
     conv (XElem (ns_db st @ ''itemizedlist'') la ltx
             [XElem (ns_db st @ ''listitem'') ia itx
                [XElem (ns_db st @ ''para'') pa (Some t) [] ptail] itail] ltail) st
     = Inr ([Elem (next_node st) K_bullet_list a1
              [Elem (next_node st + 1) K_list_item a2
                 [Elem (next_node st + 2) K_paragraph a3
                    [Text (next_node st + 3)
                       (mangled (if t ! 1 = CHR '' '' then Some StripBullet
                                 else listitem_mangle_fn st) (rstrip (lstrip t)))]]]], st') \<and>
     map_of a1 ''bullet'' = Some (VStr (if t ! 1 = CHR '' '' then [t ! 0] else ''bullet''))"
proof -
  let ?ns = "ns_db st"
  let ?para = "XElem (?ns @ ''para'') pa (Some t) [] ptail"
  let ?item = "XElem (?ns @ ''listitem'') ia itx [?para] itail"
  let ?el = "XElem (?ns @ ''itemizedlist'') la ltx [?item] ltail"
  let ?s1 = "st\<lparr>stack := stack st @ [''itemizedlist'']\<rparr>"
  let ?b = "if t ! 1 = CHR '' '' then Some (t ! 0) else None"
  let ?s2 = "case ?b of None \<Rightarrow> ?s1 | Some c \<Rightarrow> ?s1\<lparr>listitem_mangle_fn := Some StripBullet\<rparr>"
  let ?s3 = "?s2\<lparr>anchors := [], next_node := Suc (next_node ?s2)\<rparr>"
  have c: "conv ?el st = bnd (e_itemizedlist conv ?el ?s1)
       (\<lambda>(out, st2). Inr (out, st2\<lparr>stack := butlast (stack st2)\<rparr>))"
    by (rule conv_itemizedlist [OF refl])
  have sup: "supports_only ?el (TagsStr (ns_db ?s1 @ ''listitem'')) ?s1 = Inr ?s1"
    by (simp add: supports_only_def)
  have bb: "baked_bullet (first_item_para ?el ?s1) = Inr ?b"
    using len by (simp add: baked_bullet_def first_item_para_def find_el_def findall_def)
  have "save ?s3 = []" "ns_db ?s3 = ?ns"
    using sv by (simp_all split: option.splits)
  from listitem_conv [OF t this b1 b2, of ia pa itail] obtain a2 a3 s4 where
    p: "conv ?item ?s3 =
       Inr ([Elem (next_node ?s3) K_list_item a2
               [Elem (next_node ?s3 + 1) K_paragraph a3
                  [Text (next_node ?s3 + 2)
                     (mangled (listitem_mangle_fn ?s3) (rstrip (lstrip t)))]]], s4)"
    and adv: "advanced ?s3 3 s4"
    by blast
  have b3': "blank (xtail ?item)" using b3 by simp
  note b = block_single [where cv = conv and c = ?item and s = ?s2 and tg = "?ns @ ''itemizedlist''"
      and at = la and ta = ltail and k = K_bullet_list, OF b0 b3' p]
  show ?thesis
    unfolding c e_itemizedlist_def sup bnd_simps bb Let_def b
    using adv by (simp add: attach_def advanced_def)
qed


lemma supports_only_loop_Inl:
  "supports_only_loop el tags cs st = Inl e \<Longrightarrow> e = TypeError"
proof (induction cs arbitrary: st)
  case Nil
  then show ?case by simp
next
  case (Cons c cs)
  then show ?case
    by (cases "xtag c"; cases tags) (auto split: if_splits)
qed

lemma supports_only_Inl: "supports_only el tags st = Inl e \<Longrightarrow> e = TypeError"
  by (simp add: supports_only_def supports_only_loop_Inl)

lemma supports_only_loop_ns:
  "supports_only_loop el tags cs st = Inr st' \<Longrightarrow> ns_db st' = ns_db st"
  by (induction cs arbitrary: st) (auto simp: warning_def split: sum.splits if_splits)

lemma supports_only_ns: "supports_only el tags st = Inr st' \<Longrightarrow> ns_db st' = ns_db st"
  by (simp add: supports_only_def supports_only_loop_ns)

lemma first_item_para_ns: "ns_db s = ns_db st \<Longrightarrow> first_item_para el s = first_item_para el st"
  by (simp add: first_item_para_def split: option.splits)

lemma bnd_eq_Inl: "bnd m f = Inl e \<longleftrightarrow> m = Inl e \<or> (\<exists>x. m = Inr x \<and> f x = Inl e)"
  by (cases m) simp_all

lemma itemizedlist_raises:
  assumes "baked_bullet (first_item_para (XElem (ns_db st @ ''itemizedlist'') a tx cs ta) st) = Inl e"
  shows "conv (XElem (ns_db st @ ''itemizedlist'') a tx cs ta) st = Inl e \<or>
         conv (XElem (ns_db st @ ''itemizedlist'') a tx cs ta) st = Inl TypeError"
proof -
  let ?el = "XElem (ns_db st @ ''itemizedlist'') a tx cs ta"
  let ?s1 = "st\<lparr>stack := stack st @ [''itemizedlist'']\<rparr>"
  have c: "conv ?el st = bnd (e_itemizedlist conv ?el ?s1)
       (\<lambda>(out, st2). Inr (out, st2\<lparr>stack := butlast (stack st2)\<rparr>))"
    by (rule conv_itemizedlist [OF refl])
  show ?thesis
  proof (cases "supports_only ?el (TagsStr (ns_db ?s1 @ ''listitem'')) ?s1")
    case (Inl e')
    then have "e' = TypeError" by (rule supports_only_Inl)
    with Inl have "e_itemizedlist conv ?el ?s1 = Inl TypeError"
      unfolding e_itemizedlist_def by simp
    then show ?thesis unfolding c by simp
  next
    case (Inr s2)
    have "first_item_para ?el s2 = first_item_para ?el st"
      using supports_only_ns [OF Inr] by (intro first_item_para_ns) simp
    with assms have "baked_bullet (first_item_para ?el s2) = Inl e" by simp
    with Inr have "e_itemizedlist conv ?el ?s1 = Inl e"
      unfolding e_itemizedlist_def by simp
    then show ?thesis unfolding c by simp
  qed
qed

lemma itemizedlist_result:
  assumes "conv (XElem (ns_db st @ ''itemizedlist'') a tx cs ta) st = Inr (out, st')"
  shows "\<exists>b n attrs ch fl.
     baked_bullet (first_item_para (XElem (ns_db st @ ''itemizedlist'') a tx cs ta) st) = Inr b \<and>
     out = Elem n K_bullet_list attrs ch # fl \<and>
     map_of attrs ''bullet'' = Some (VStr (case b of None \<Rightarrow> ''bullet'' | Some c \<Rightarrow> [c]))"
proof -
  let ?el = "XElem (ns_db st @ ''itemizedlist'') a tx cs ta"
  let ?s1 = "st\<lparr>stack := stack st @ [''itemizedlist'']\<rparr>"
  have c: "conv ?el st = bnd (e_itemizedlist conv ?el ?s1)
       (\<lambda>(out, st2). Inr (out, st2\<lparr>stack := butlast (stack st2)\<rparr>))"
    by (rule conv_itemizedlist [OF refl])
  from assms obtain s5 where r: "e_itemizedlist conv ?el ?s1 = Inr (out, s5)"
    unfolding c by (auto simp: bnd_eq_Inr)
  from r obtain s2 b where
    s: "supports_only ?el (TagsStr (ns_db ?s1 @ ''listitem'')) ?s1 = Inr s2" and
    bb: "baked_bullet (first_item_para ?el s2) = Inr b" and
    rest: "(let st2 = (case b of None \<Rightarrow> s2 | Some c \<Rightarrow> s2\<lparr>listitem_mangle_fn := Some StripBullet\<rparr>);
               bullet = (case b of None \<Rightarrow> ''bullet'' | Some c \<Rightarrow> [c])
           in bnd (block conv ?el (Some K_bullet_list) st2) (\<lambda>(w, items, flushed, st3).
                Inr (attach (map_option (set_attr ''bullet'' (VStr bullet)) w) items @ flushed,
                     st3\<lparr>listitem_mangle_fn := None\<rparr>))) = Inr (out, s5)"
    unfolding e_itemizedlist_def bnd_eq_Inr by blast
  from rest obtain w items fl s4 where
    blk: "block conv ?el (Some K_bullet_list)
            (case b of None \<Rightarrow> s2 | Some c \<Rightarrow> s2\<lparr>listitem_mangle_fn := Some StripBullet\<rparr>)
          = Inr (w, items, fl, s4)" and
    o: "out = attach (map_option (set_attr ''bullet''
                 (VStr (case b of None \<Rightarrow> ''bullet'' | Some c \<Rightarrow> [c]))) w) items @ fl"
    unfolding Let_def bnd_eq_Inr by auto
  from block_Some [OF blk] obtain n at where w: "w = Some (Elem n K_bullet_list at [])"
    by blast
  have "first_item_para ?el s2 = first_item_para ?el st"
    using supports_only_ns [OF s] by (intro first_item_para_ns) simp
  with bb have "baked_bullet (first_item_para ?el st) = Inr b" by simp
  moreover have "out = Elem n K_bullet_list
      (AList.update ''bullet'' (VStr (case b of None \<Rightarrow> ''bullet'' | Some c \<Rightarrow> [c])) at) items # fl"
    by (simp add: o w attach_def)
  ultimately show ?thesis
    by (intro exI conjI) (assumption, assumption, simp)
qed

text \<open>
  C10. For an itemized list whose first \<^verbatim>\<open>listitem\<close> has a first \<^verbatim>\<open>para\<close> child,
  the conversion raises when the text of that paragraph is absent (TypeError) or shorter
  than two characters (IndexError, or TypeError when \<^verbatim>\<open>supports_only\<close> has raised
  before). A conversion that returns has made the list node, and that node has the
  generic bullet exactly when there is no such paragraph or its text has at least two
  characters of which the second is not a space.
\<close>

theorem bullet_inspection_unguarded:
  fixes st a tx cs ta
  defines "el \<equiv> XElem (ns_db st @ ''itemizedlist'') a tx cs ta"
  shows "(first_item_para el st = Some p \<and> xtext p = None \<longrightarrow> conv el st = Inl TypeError) \<and>
    (first_item_para el st = Some p \<and> xtext p = Some t \<and> length t < 2 \<longrightarrow>
       conv el st = Inl IndexError \<or> conv el st = Inl TypeError) \<and>
    (\<forall>out st'. conv el st = Inr (out, st') \<longrightarrow>
       (\<exists>n attrs ch fl. out = Elem n K_bullet_list attrs ch # fl \<and>
          (map_of attrs ''bullet'' = Some (VStr ''bullet'') \<longleftrightarrow>
             first_item_para el st = None \<or>
             (\<exists>q u. first_item_para el st = Some q \<and> xtext q = Some u \<and> 2 \<le> length u \<and>
                u ! 1 \<noteq> CHR '' ''))))"
proof (intro conjI impI allI)
  assume "first_item_para el st = Some p \<and> xtext p = None"
  then have "baked_bullet (first_item_para el st) = Inl TypeError"
    by (simp add: baked_bullet_def)
  then show "conv el st = Inl TypeError"
    unfolding el_def using itemizedlist_raises by blast
next
  assume "first_item_para el st = Some p \<and> xtext p = Some t \<and> length t < 2"
  then have "baked_bullet (first_item_para el st) = Inl IndexError"
    by (simp add: baked_bullet_def)
  then show "conv el st = Inl IndexError \<or> conv el st = Inl TypeError"
    unfolding el_def by (rule itemizedlist_raises)
next
  fix out st'
  assume r: "conv el st = Inr (out, st')"
  from itemizedlist_result [OF r [unfolded el_def]] obtain b n attrs ch fl where
    bb: "baked_bullet (first_item_para el st) = Inr b" and
    o: "out = Elem n K_bullet_list attrs ch # fl" and
    m: "map_of attrs ''bullet'' = Some (VStr (case b of None \<Rightarrow> ''bullet'' | Some c \<Rightarrow> [c]))"
    unfolding el_def by blast
  have "b = None \<longleftrightarrow> first_item_para el st = None \<or>
      (\<exists>q u. first_item_para el st = Some q \<and> xtext q = Some u \<and> 2 \<le> length u \<and>
         u ! 1 \<noteq> CHR '' '')"
    using bb by (auto simp: baked_bullet_def split: option.splits if_splits)
  moreover have "map_of attrs ''bullet'' = Some (VStr ''bullet'') \<longleftrightarrow> b = None"
    using m by (cases b) auto
  ultimately show "\<exists>n attrs ch fl. out = Elem n K_bullet_list attrs ch # fl \<and>
      (map_of attrs ''bullet'' = Some (VStr ''bullet'') \<longleftrightarrow>
         first_item_para el st = None \<or>
         (\<exists>q u. first_item_para el st = Some q \<and> xtext q = Some u \<and> 2 \<le> length u \<and>
            u ! 1 \<noteq> CHR '' ''))"
    using o by blast
qed

text \<open>A first paragraph without text, and one with the text \<^verbatim>\<open>x\<close>.\<close>

theorem bullet_inspection_unguarded_witness:
  "first_item_para (XElem ''itemizedlist'' [] None
       [XElem ''listitem'' [] None [XElem ''para'' [] None [] None] None] None) (init False)
     = Some (XElem ''para'' [] None [] None) \<and>
   conv (XElem ''itemizedlist'' [] None
       [XElem ''listitem'' [] None [XElem ''para'' [] None [] None] None] None) (init False)
     = Inl TypeError \<and>
   first_item_para (XElem ''itemizedlist'' [] None
       [XElem ''listitem'' [] None [XElem ''para'' [] (Some ''x'') [] None] None] None) (init False)
     = Some (XElem ''para'' [] (Some ''x'') [] None) \<and>
   conv (XElem ''itemizedlist'' [] None
       [XElem ''listitem'' [] None [XElem ''para'' [] (Some ''x'') [] None] None] None) (init False)
     = Inl IndexError"
proof -
  let ?p = "XElem ''para'' [] None [] None"
  let ?el = "XElem ''itemizedlist'' [] None [XElem ''listitem'' [] None [?p] None] None"
  have n: "ns_db (init False) = []"
    by (simp add: ns_db_def init_def)
  have f: "first_item_para ?el (init False) = Some ?p"
    by (simp add: first_item_para_def find_el_def findall_def n)
  have "conv ?el (init False) = Inl TypeError"
    using bullet_inspection_unguarded [of "init False" "[]" None "[XElem ''listitem'' [] None [?p] None]"
        None ?p] f
    by (simp add: n)
  moreover
  let ?q = "XElem ''para'' [] (Some ''x'') [] None"
  let ?el2 = "XElem ''itemizedlist'' [] None [XElem ''listitem'' [] None [?q] None] None"
  have g: "first_item_para ?el2 (init False) = Some ?q"
    by (simp add: first_item_para_def find_el_def findall_def n)
  have "conv ?el2 (init False) = Inl IndexError"
    by code_simp
  ultimately show ?thesis
    using f g by simp
qed






subsection \<open>Index terms\<close>

lemma tag_in_tuple: "tag_in t (TagsTuple ts) = Inr False \<or> tag_in t (TagsTuple ts) = Inr True"
  by (cases t) auto

lemma supports_only_loop_tuple:
  "supports_only_loop el (TagsTuple ts) cs st = Inr (st\<lparr>reports := reports st @ skipped el ts cs\<rparr>)"
proof (induction cs arbitrary: st)
  case Nil
  show ?case by (simp add: skipped_def)
next
  case (Cons c cs)
  from tag_in_tuple [of "xtag c" ts] show ?case
  proof
    assume f: "tag_in (xtag c) (TagsTuple ts) = Inr False"
    show ?thesis
      using Cons.IH [of "warning st (Skipped (xtag el) (xtag c))"] f
      by (simp add: skipped_def warning_def)
  next
    assume t: "tag_in (xtag c) (TagsTuple ts) = Inr True"
    show ?thesis
      using Cons.IH [of st] t by (simp add: skipped_def)
  qed
qed

lemma supports_only_tuple:
  "supports_only el (TagsTuple ts) st =
     Inr (st\<lparr>reports := reports st @ skipped el ts (getchildren el)\<rparr>)"
  by (simp add: supports_only_def supports_only_loop_tuple)

lemma handler_indexterm: "map_of handlers (''e_'' @ ''indexterm'') = Some (\<lambda>cv. e_indexterm)"
  by (simp add: handlers_def)

lemmas conv_indexterm = conv_docbook_ns [OF _ handler_indexterm]




end
